theory Spec2Isabelle
  imports Main "HOL-Library.Sublist"
begin

section \<open>Data model of \<^verbatim>\<open>model/input/attributes.go\<close>\<close>

text \<open>
  Go strings are byte sequences; \<^typ>\<open>string\<close> is a list of 8-bit characters, so a Go
  string is modelled byte for byte. \<^verbatim>\<open>json.Number\<close> is a Go string type and
  \<^verbatim>\<open>json.RawMessage\<close> a byte slice.
\<close>

text \<open>The struct \<^verbatim>\<open>AdItem\<close>.\<close>

record AdItem =
  ID :: string
  Title :: string
  Description :: string
  Link :: string
  ImageLink :: string
  Brand :: string
  Price :: string
  Availability :: string
  CodeNumber :: string

text \<open>
  The struct \<^verbatim>\<open>AdAttributes\<close> with its anonymous nested structs, one record per
  nesting level. Field names carry the enclosing field as a prefix where Go reuses a name
  (\<^verbatim>\<open>ID\<close>, \<^verbatim>\<open>Value\<close>, \<^verbatim>\<open>Data\<close>, \<^verbatim>\<open>Brand\<close>, \<^verbatim>\<open>Price\<close>).
\<close>

record IDField =
  ID_ID :: string
  ID_Value :: string

record InputSearchValueField =
  InputSearchValue_Value :: string

record Image =
  Src :: string

record ValuesField =
  Values_Brand :: string
  Values_Price :: string
  Values_Images :: "Image list"
  Values_AdType :: string

record PaymentMethod =
  PaymentMethod_Value :: string

record PaymentMethodsField =
  PaymentMethods_Data :: "PaymentMethod list"

record StepData =
  Data_ID :: IDField
  Data_InputSearchValue :: InputSearchValueField
  Data_Values :: ValuesField
  Data_PaymentMethods :: PaymentMethodsField

record Step =
  Name :: string
  Data :: StepData

record AdAttributes =
  StepsData :: "Step list"

text \<open>One element of \<^verbatim>\<open>response.Ads\<close>.\<close>

record RawAd =
  ad_ID :: string
  ad_DraftID :: string
  ad_Description :: string
  ad_CodeNumber :: string
  ad_Attributes :: string

text \<open>
  \<^verbatim>\<open>json.Unmarshal(ad.Attributes, &attrs)\<close> belongs to Go's standard library. It is a
  parameter of the model: a function from the raw bytes to either the error's text or the
  decoded \<^verbatim>\<open>AdAttributes\<close>.
\<close>

type_synonym unmarshal = "string \<Rightarrow> string + AdAttributes"

text \<open>
  The calls of \<^verbatim>\<open>log.Printf\<close>, in the order they are made: the ad id and error of a
  failed decode, the ad id of a record skipped for its empty code number, and the two
  totals printed after the loop.
\<close>

datatype log_entry =
  LogUnmarshalError string string
| LogMissingCodeNumber string
| LogTotalAuction int
| LogTotalOther int

text \<open>
  The variables that live across iterations of the loop over \<^verbatim>\<open>response.Ads\<close>. The
  counters are Go \<^verbatim>\<open>int\<close>s counting elements of a slice, so they stay far below the
  64-bit range and are modelled as unbounded integers.
\<close>

record run_state =
  items :: "AdItem list"
  auctionCount :: int
  otherCount :: int
  logs :: "log_entry list"

section \<open>The subcategory allow-list\<close>

definition allowedSubcategories :: "string \<rightharpoonup> bool" where
  "allowedSubcategories = map_of
     [(''212818c2-5ae3-4a95-88c9-370b3b906df0'', True),
      (''456ceaaa-de4d-449f-8621-3af7253fe452'', True),
      (''5feb2aa4-3361-401b-ab05-d0623bab291b'', True),
      (''7685d106-a4dd-48ed-876b-4dd8116f114c'', True),
      (''34991934-f9ef-457c-9824-c82dad366889'', True),
      (''1c4df47a-e94a-49b4-aeea-1d77dc4f5458'', True),
      (''e84fd5e8-c303-46db-b1c6-e493781aef40'', True),
      (''63d47c2b-a5eb-4439-b45d-ccbaa4ca671a'', True),
      (''73a17eb3-1686-40d6-bcce-edc5c69b5540'', True)]"

text \<open>Indexing a Go \<^verbatim>\<open>map[string]bool\<close>: a missing key reads as \<^verbatim>\<open>false\<close>.\<close>

definition allowed :: "string \<Rightarrow> bool" where
  "allowed k = (case allowedSubcategories k of None \<Rightarrow> False | Some b \<Rightarrow> b)"

section \<open>The three loops over the steps of one ad\<close>

text \<open>Lines 124-131: the search for an allowed subcategory, leaving at the first hit.\<close>

fun shouldInclude_loop :: "Step list \<Rightarrow> bool" where
  "shouldInclude_loop [] = False"
| "shouldInclude_loop (step # rest) =
     (if Name step = ''search_product'' then
        (if allowed (ID_ID (Data_ID (Data step))) then True else shouldInclude_loop rest)
      else shouldInclude_loop rest)"

text \<open>Lines 142-146: the inner loop over the payment methods of one step.\<close>

fun payment_loop :: "PaymentMethod list \<Rightarrow> bool \<Rightarrow> bool" where
  "payment_loop [] hasOnlinePayment = hasOnlinePayment"
| "payment_loop (payment # rest) hasOnlinePayment =
     payment_loop rest
       (if PaymentMethod_Value payment = ''Online Payment'' then True else hasOnlinePayment)"

text \<open>
  Lines 140-151: the loop that sets \<^verbatim>\<open>adType\<close>, \<^verbatim>\<open>price\<close> and \<^verbatim>\<open>hasOnlinePayment\<close>,
  the three variables passed along as a triple.
\<close>

fun classify_loop :: "Step list \<Rightarrow> string \<times> string \<times> bool \<Rightarrow> string \<times> string \<times> bool" where
  "classify_loop [] acc = acc"
| "classify_loop (step # rest) (adType, price, hasOnlinePayment) =
     classify_loop rest
       (if Name step = ''delivery_and_payment_methods'' then
          (adType, price,
           payment_loop (PaymentMethods_Data (Data_PaymentMethods (Data step))) hasOnlinePayment)
        else if Name step = ''product_detail'' then
          (Values_AdType (Data_Values (Data step)), Values_Price (Data_Values (Data step)),
           hasOnlinePayment)
        else (adType, price, hasOnlinePayment))"

text \<open>
  Lines 164-173: the loop that sets \<^verbatim>\<open>title\<close>, \<^verbatim>\<open>brand\<close> and \<^verbatim>\<open>imageSrc\<close>. The
  image source is only assigned when the step has at least one image.
\<close>

fun extract_loop :: "Step list \<Rightarrow> string \<times> string \<times> string \<Rightarrow> string \<times> string \<times> string" where
  "extract_loop [] acc = acc"
| "extract_loop (step # rest) (title, brand, imageSrc) =
     extract_loop rest
       (if Name step = ''search_product'' then
          (InputSearchValue_Value (Data_InputSearchValue (Data step)), brand, imageSrc)
        else if Name step = ''product_detail'' then
          (title, Values_Brand (Data_Values (Data step)),
           (case Values_Images (Data_Values (Data step)) of
              [] \<Rightarrow> imageSrc
            | img # _ \<Rightarrow> Src img))
        else (title, brand, imageSrc))"

section \<open>String helpers\<close>

text \<open>
  \<^verbatim>\<open>strings.ReplaceAll(s, old, "")\<close> of Go's standard library: the occurrences of
  \<^verbatim>\<open>old\<close> are found from left to right without overlap and dropped. With an empty
  \<^verbatim>\<open>old\<close> the two patterns are equal and the string is returned as it is.
\<close>

function ReplaceAll_empty :: "string \<Rightarrow> string \<Rightarrow> string" where
  "ReplaceAll_empty [] old = []"
| "ReplaceAll_empty (c # cs) old =
     (if old = [] then c # cs
      else if prefix old (c # cs) then ReplaceAll_empty (drop (length old) (c # cs)) old
      else c # ReplaceAll_empty cs old)"
  by pat_completeness auto
termination
  by (relation "measure (\<lambda>(s, old). length s)") auto

text \<open>The UTF-8 encoding of U+200E LEFT-TO-RIGHT MARK, the Go literal \<^verbatim>\<open>"\u200E"\<close>.\<close>

definition LRM :: string where
  "LRM = [CHR 0xE2, CHR 0x80, CHR 0x8E]"

text \<open>Line 177: the \<^verbatim>\<open>fmt.Sprintf\<close> of the image URL, \<^verbatim>\<open>%s\<close> copying its argument.\<close>

definition image_url :: "string \<Rightarrow> string \<Rightarrow> string" where
  "image_url draftID imageSrc =
     ''https://ayshei.com/_next/image?url=https://storage.ayshei.com/prod/public/drafts/''
       @ draftID @ ''/web/'' @ imageSrc @ ''&amp;w=3840&amp;q=75''"

text \<open>Line 199: the \<^verbatim>\<open>fmt.Sprintf\<close> of the product link.\<close>

definition product_link :: "string \<Rightarrow> string" where
  "product_link adID = ''https://ayshei.com/product/'' @ adID"

section \<open>The body of the loop over the ads, and \<^verbatim>\<open>FetchAds\<close>\<close>

text \<open>Lines 194-205: the \<^verbatim>\<open>AdItem\<close> literal.\<close>

definition build_item :: "RawAd \<Rightarrow> string \<Rightarrow> string \<Rightarrow> string \<Rightarrow> string \<Rightarrow> AdItem" where
  "build_item ad title brand imageSrc price =
     \<lparr>ID = ad_ID ad,
      Title = ReplaceAll_empty title ''&'',
      Description = ReplaceAll_empty (ad_Description ad) LRM,
      Link = product_link (ad_ID ad),
      ImageLink = imageSrc,
      Brand = brand,
      Price = price @ '' AED'',
      Availability = ''in stock'',
      CodeNumber = ad_CodeNumber ad\<rparr>"

text \<open>Lines 153-158: the tally of the ad type.\<close>

definition count_adType :: "string \<Rightarrow> run_state \<Rightarrow> run_state" where
  "count_adType adType st =
     (if adType = ''auction'' then st\<lparr>auctionCount := auctionCount st + 1\<rparr>
      else st\<lparr>otherCount := otherCount st + 1\<rparr>)"

text \<open>Lines 161-206: the projection of an ad that has the online payment.\<close>

definition project_ad :: "RawAd \<Rightarrow> Step list \<Rightarrow> string \<Rightarrow> run_state \<Rightarrow> run_state" where
  "project_ad ad steps price st =
     (case extract_loop steps ('''', '''', '''') of
        (title, brand, imageSrc) \<Rightarrow>
          let imageSrc' =
                (if imageSrc \<noteq> '''' then image_url (ad_DraftID ad) imageSrc else imageSrc)
          in if ad_CodeNumber ad = ''''
             then st\<lparr>logs := logs st @ [LogMissingCodeNumber (ad_ID ad)]\<rparr>
             else st\<lparr>items := items st @ [build_item ad title brand imageSrc' price]\<rparr>)"

text \<open>Lines 102-207: one iteration of the loop over \<^verbatim>\<open>response.Ads\<close>.\<close>

definition process_ad :: "unmarshal \<Rightarrow> run_state \<Rightarrow> RawAd \<Rightarrow> run_state" where
  "process_ad unmarshal st ad =
     (case unmarshal (ad_Attributes ad) of
        Inl err \<Rightarrow> st\<lparr>logs := logs st @ [LogUnmarshalError (ad_ID ad) err]\<rparr>
      | Inr attrs \<Rightarrow>
          if \<not> shouldInclude_loop (StepsData attrs) then st
          else
            (case classify_loop (StepsData attrs) ('''', '''', False) of
               (adType, price, hasOnlinePayment) \<Rightarrow>
                 let st1 = count_adType adType st
                 in if hasOnlinePayment then project_ad ad (StepsData attrs) price st1
                    else st1))"

text \<open>Lines 97-99: the variables before the loop.\<close>

definition init_state :: run_state where
  "init_state = \<lparr>items = [], auctionCount = 0, otherCount = 0, logs = []\<rparr>"

text \<open>Lines 102-211: the loop, then the two totals.\<close>

definition process_ads :: "unmarshal \<Rightarrow> run_state \<Rightarrow> RawAd list \<Rightarrow> run_state" where
  "process_ads unmarshal st ads = foldl (process_ad unmarshal) st ads"

definition log_totals :: "run_state \<Rightarrow> run_state" where
  "log_totals st =
     st\<lparr>logs := logs st @ [LogTotalAuction (auctionCount st), LogTotalOther (otherCount st)]\<rparr>"

definition FetchAds_run :: "unmarshal \<Rightarrow> RawAd list \<Rightarrow> run_state" where
  "FetchAds_run unmarshal ads = log_totals (process_ads unmarshal init_state ads)"

text \<open>
  \<^verbatim>\<open>FetchAds\<close> from line 92 on: \<^verbatim>\<open>client.Run\<close> of the GraphQL library has either
  failed with an error, which is returned as it is, or filled \<^verbatim>\<open>response.Ads\<close>.
\<close>

definition FetchAds :: "unmarshal \<Rightarrow> string + RawAd list \<Rightarrow> string + AdItem list" where
  "FetchAds unmarshal response =
     (case response of
        Inl err \<Rightarrow> Inl err
      | Inr ads \<Rightarrow> Inr (items (FetchAds_run unmarshal ads)))"

section \<open>The specification's predicates on the decoded steps\<close>

text \<open>
  These definitions follow the words of the specification, not the code; the theorems
  below compare them with the loops above. \<open>spec_subcategoryMatch\<close>: some step named
  "search_product" has an identifier in the allow-list.
\<close>

definition spec_subcategoryMatch :: "Step list \<Rightarrow> bool" where
  "spec_subcategoryMatch steps =
     (\<exists>step \<in> set steps.
        Name step = ''search_product'' \<and> allowed (ID_ID (Data_ID (Data step))))"

text \<open>
  \<open>spec_hasQualifyingPayment\<close>: some step named "delivery_and_payment_methods" has the
  literal "Online Payment" among its payment values.
\<close>

definition spec_hasQualifyingPayment :: "Step list \<Rightarrow> bool" where
  "spec_hasQualifyingPayment steps =
     (\<exists>step \<in> set steps.
        Name step = ''delivery_and_payment_methods'' \<and>
        ''Online Payment'' \<in>
          PaymentMethod_Value ` set (PaymentMethods_Data (Data_PaymentMethods (Data step))))"

text \<open>The last step, in sequence order, that satisfies a condition.\<close>

definition spec_last_step :: "(Step \<Rightarrow> bool) \<Rightarrow> Step list \<Rightarrow> Step option" where
  "spec_last_step P steps =
     (case filter P steps of
        [] \<Rightarrow> None
      | step # rest \<Rightarrow> Some (last (step # rest)))"

text \<open>
  A field of the last step of a given name, and the empty string (the initial value of the
  variable) when no step has that name.
\<close>

definition spec_last_field :: "string \<Rightarrow> (Step \<Rightarrow> string) \<Rightarrow> Step list \<Rightarrow> string" where
  "spec_last_field n field steps =
     (case spec_last_step (\<lambda>step. Name step = n) steps of
        None \<Rightarrow> ''''
      | Some step \<Rightarrow> field step)"

definition spec_title :: "Step list \<Rightarrow> string" where
  "spec_title = spec_last_field ''search_product''
     (\<lambda>step. InputSearchValue_Value (Data_InputSearchValue (Data step)))"

definition spec_brand :: "Step list \<Rightarrow> string" where
  "spec_brand = spec_last_field ''product_detail''
     (\<lambda>step. Values_Brand (Data_Values (Data step)))"

definition spec_price :: "Step list \<Rightarrow> string" where
  "spec_price = spec_last_field ''product_detail''
     (\<lambda>step. Values_Price (Data_Values (Data step)))"

definition spec_adType :: "Step list \<Rightarrow> string" where
  "spec_adType = spec_last_field ''product_detail''
     (\<lambda>step. Values_AdType (Data_Values (Data step)))"

text \<open>
  The first image source as the specification has it: the source of the first image of
  the last "product_detail" step, empty when that step has no image.
\<close>

definition spec_imageSrc :: "Step list \<Rightarrow> string" where
  "spec_imageSrc = spec_last_field ''product_detail''
     (\<lambda>step. case Values_Images (Data_Values (Data step)) of
                [] \<Rightarrow> ''''
              | img # _ \<Rightarrow> Src img)"

text \<open>
  The first image source of the last "product_detail" step among those that have at
  least one image, empty when there is no such step.
\<close>

definition last_with_image_imageSrc :: "Step list \<Rightarrow> string" where
  "last_with_image_imageSrc steps =
     (case spec_last_step
             (\<lambda>step. Name step = ''product_detail'' \<and>
                      Values_Images (Data_Values (Data step)) \<noteq> []) steps of
        None \<Rightarrow> ''''
      | Some step \<Rightarrow>
          (case Values_Images (Data_Values (Data step)) of
             [] \<Rightarrow> ''''
           | img # _ \<Rightarrow> Src img))"

text \<open>
  A step with its ad type blanked. Two step sequences that agree after blanking differ in
  their ad types only.
\<close>

definition blank_adType :: "Step \<Rightarrow> Step" where
  "blank_adType step =
     step\<lparr>Data := (Data step)\<lparr>Data_Values := (Data_Values (Data step))\<lparr>Values_AdType := ''''\<rparr>\<rparr>\<rparr>"

text \<open>
  Well-formed UTF-8 (RFC 3629), as \<^verbatim>\<open>utf8.ValidString\<close> decides it. Every string that
  \<^verbatim>\<open>encoding/json\<close> decodes is well-formed: the decoder replaces invalid bytes by
  U+FFFD. The fetched descriptions are such strings.
\<close>

definition continuation :: "char \<Rightarrow> bool" where
  "continuation c = (0x80 \<le> (of_char c :: nat) \<and> (of_char c :: nat) \<le> 0xBF)"

definition second_of3 :: "nat \<Rightarrow> char \<Rightarrow> bool" where
  "second_of3 b c =
     (if b = 0xE0 then 0xA0 \<le> (of_char c :: nat) \<and> (of_char c :: nat) \<le> 0xBF
      else if b = 0xED then 0x80 \<le> (of_char c :: nat) \<and> (of_char c :: nat) \<le> 0x9F
      else continuation c)"

definition second_of4 :: "nat \<Rightarrow> char \<Rightarrow> bool" where
  "second_of4 b c =
     (if b = 0xF0 then 0x90 \<le> (of_char c :: nat) \<and> (of_char c :: nat) \<le> 0xBF
      else if b = 0xF4 then 0x80 \<le> (of_char c :: nat) \<and> (of_char c :: nat) \<le> 0x8F
      else continuation c)"

fun utf8_valid :: "string \<Rightarrow> bool" where
  "utf8_valid [] = True"
| "utf8_valid (c # cs) =
     (if (of_char c :: nat) < 0x80 then utf8_valid cs
      else if 0xC2 \<le> (of_char c :: nat) \<and> (of_char c :: nat) \<le> 0xDF then
        (case cs of
           c1 # rest \<Rightarrow> continuation c1 \<and> utf8_valid rest
         | _ \<Rightarrow> False)
      else if 0xE0 \<le> (of_char c :: nat) \<and> (of_char c :: nat) \<le> 0xEF then
        (case cs of
           c1 # c2 # rest \<Rightarrow> second_of3 (of_char c) c1 \<and> continuation c2 \<and> utf8_valid rest
         | _ \<Rightarrow> False)
      else if 0xF0 \<le> (of_char c :: nat) \<and> (of_char c :: nat) \<le> 0xF4 then
        (case cs of
           c1 # c2 # c3 # rest \<Rightarrow>
             second_of4 (of_char c) c1 \<and> continuation c2 \<and> continuation c3 \<and> utf8_valid rest
         | _ \<Rightarrow> False)
      else False)"

section \<open>Sample inputs\<close>

text \<open>
  The steps that decoding yields for a JSON step that carries only the fields named: Go
  leaves every absent field at its zero value.
\<close>

definition zero_StepData :: StepData where
  "zero_StepData =
     \<lparr>Data_ID = \<lparr>ID_ID = '''', ID_Value = ''''\<rparr>,
      Data_InputSearchValue = \<lparr>InputSearchValue_Value = ''''\<rparr>,
      Data_Values = \<lparr>Values_Brand = '''', Values_Price = '''', Values_Images = [],
                     Values_AdType = ''''\<rparr>,
      Data_PaymentMethods = \<lparr>PaymentMethods_Data = []\<rparr>\<rparr>"

definition search_product_step :: "string \<Rightarrow> string \<Rightarrow> Step" where
  "search_product_step subcategory txt =
     \<lparr>Name = ''search_product'',
      Data = zero_StepData
        \<lparr>Data_ID := \<lparr>ID_ID = subcategory, ID_Value = ''''\<rparr>,
         Data_InputSearchValue := \<lparr>InputSearchValue_Value = txt\<rparr>\<rparr>\<rparr>"

definition delivery_step :: "string list \<Rightarrow> Step" where
  "delivery_step vs =
     \<lparr>Name = ''delivery_and_payment_methods'',
      Data = zero_StepData
        \<lparr>Data_PaymentMethods :=
           \<lparr>PaymentMethods_Data = map (\<lambda>v. \<lparr>PaymentMethod_Value = v\<rparr>) vs\<rparr>\<rparr>\<rparr>"

definition product_detail_step :: "string \<Rightarrow> string \<Rightarrow> string list \<Rightarrow> string \<Rightarrow> Step" where
  "product_detail_step brand price srcs adType =
     \<lparr>Name = ''product_detail'',
      Data = zero_StepData
        \<lparr>Data_Values :=
           \<lparr>Values_Brand = brand, Values_Price = price,
            Values_Images = map (\<lambda>src. \<lparr>Src = src\<rparr>) srcs, Values_AdType = adType\<rparr>\<rparr>\<rparr>"

text \<open>Two subcategory identifiers: one of the allow-list, one outside it.\<close>

definition bags :: string where
  "bags = ''212818c2-5ae3-4a95-88c9-370b3b906df0''"

definition elsewhere :: string where
  "elsewhere = ''00000000-0000-0000-0000-000000000000''"

text \<open>
  A decoder for the sample ads: the attribute blobs are the keys of a table of decoded
  steps, and every other blob is malformed.
\<close>

definition sample_steps :: "(string \<times> Step list) list" where
  "sample_steps =
     [(''qualifying'',
         [search_product_step bags ''Bag & Co'',
          delivery_step [''Cash'', ''Online Payment''],
          product_detail_step ''Acme'' ''100'' [''abc/def.jpg'', ''x.jpg''] ''buy_now'']),
      (''auction'',
         [search_product_step bags ''Watch'',
          product_detail_step ''Tick'' ''250'' [] ''auction'',
          delivery_step [''Online Payment'']]),
      (''cash_only'',
         [search_product_step bags ''Scarf'',
          delivery_step [''Cash''],
          product_detail_step ''Silk'' ''40'' [] ''auction'']),
      (''cash_only_plain'',
         [search_product_step bags ''Belt'',
          delivery_step [''Cash'']]),
      (''other_subcategory'',
         [search_product_step elsewhere ''Sofa'',
          delivery_step [''Online Payment''],
          product_detail_step ''Home'' ''900'' [''s.jpg''] ''auction'']),
      (''no_detail'',
         [search_product_step bags ''Hat'',
          delivery_step [''Online Payment'']]),
      (''empty_price'',
         [search_product_step bags ''Cap'',
          product_detail_step ''Brim'' ''75'' [] ''buy_now'',
          delivery_step [''Online Payment''],
          product_detail_step ''Brim'' '''' [] ''buy_now'']),
      (''duplicates'',
         [search_product_step elsewhere ''Old title'',
          product_detail_step ''Old'' ''1'' [''old.jpg''] ''auction'',
          search_product_step bags ''New title'',
          delivery_step [''Online Payment''],
          product_detail_step ''New'' ''2'' [] ''buy_now''])]"

definition sample_unmarshal :: unmarshal where
  "sample_unmarshal blob =
     (case map_of sample_steps blob of
        None \<Rightarrow> Inl ''invalid character''
      | Some steps \<Rightarrow> Inr \<lparr>StepsData = steps\<rparr>)"

definition sample_ad :: "string \<Rightarrow> string \<Rightarrow> string \<Rightarrow> RawAd" where
  "sample_ad adID code blob =
     \<lparr>ad_ID = adID, ad_DraftID = ''D1'', ad_Description = ''Fine'' @ LRM @ '' leather'',
      ad_CodeNumber = code, ad_Attributes = blob\<rparr>"

section \<open>The loops and the specification's predicates\<close>

lemma shouldInclude_loop_iff: "shouldInclude_loop steps = spec_subcategoryMatch steps"
  by (induction steps) (auto simp: spec_subcategoryMatch_def)

lemma payment_loop_iff:
  "payment_loop ps h = (h \<or> ''Online Payment'' \<in> PaymentMethod_Value ` set ps)"
  by (induction ps arbitrary: h) auto

lemma spec_last_step_Nil: "spec_last_step P [] = None"
  by (simp add: spec_last_step_def)

lemma spec_last_step_Cons:
  "spec_last_step P (step # rest) =
     (case spec_last_step P rest of
        Some s \<Rightarrow> Some s
      | None \<Rightarrow> if P step then Some step else None)"
  by (auto simp: spec_last_step_def split: list.splits)

lemma classify_loop_general:
  "classify_loop steps (adType, price, h) =
     ((case spec_last_step (\<lambda>step. Name step = ''product_detail'') steps of
         None \<Rightarrow> adType | Some s \<Rightarrow> Values_AdType (Data_Values (Data s))),
      (case spec_last_step (\<lambda>step. Name step = ''product_detail'') steps of
         None \<Rightarrow> price | Some s \<Rightarrow> Values_Price (Data_Values (Data s))),
      (h \<or> spec_hasQualifyingPayment steps))"
proof (induction steps arbitrary: adType price h)
  case Nil
  show ?case by (simp add: spec_last_step_Nil spec_hasQualifyingPayment_def)
next
  case (Cons step rest)
  show ?case
    by (simp add: Cons.IH spec_last_step_Cons payment_loop_iff spec_hasQualifyingPayment_def
        split: option.splits)
qed

lemma classify_loop_spec:
  "classify_loop steps ('''', '''', False) =
     (spec_adType steps, spec_price steps, spec_hasQualifyingPayment steps)"
  by (simp add: classify_loop_general spec_adType_def spec_price_def spec_last_field_def)

lemma extract_loop_general:
  "extract_loop steps (title, brand, imageSrc) =
     ((case spec_last_step (\<lambda>step. Name step = ''search_product'') steps of
         None \<Rightarrow> title | Some s \<Rightarrow> InputSearchValue_Value (Data_InputSearchValue (Data s))),
      (case spec_last_step (\<lambda>step. Name step = ''product_detail'') steps of
         None \<Rightarrow> brand | Some s \<Rightarrow> Values_Brand (Data_Values (Data s))),
      (case spec_last_step (\<lambda>step. Name step = ''product_detail'' \<and>
                      Values_Images (Data_Values (Data step)) \<noteq> []) steps of
         None \<Rightarrow> imageSrc
       | Some s \<Rightarrow> (case Values_Images (Data_Values (Data s)) of
             [] \<Rightarrow> ''''
           | img # _ \<Rightarrow> Src img)))"
proof (induction steps arbitrary: title brand imageSrc)
  case Nil
  show ?case by (simp add: spec_last_step_Nil)
next
  case (Cons step rest)
  show ?case
    by (simp add: Cons.IH spec_last_step_Cons split: option.splits list.splits)
qed

lemma extract_loop_spec:
  "extract_loop steps ('''', '''', '''') =
     (spec_title steps, spec_brand steps, last_with_image_imageSrc steps)"
  by (simp add: extract_loop_general spec_title_def spec_brand_def spec_last_field_def
      last_with_image_imageSrc_def)


lemma process_ad_malformed:
  assumes "unmarshal (ad_Attributes ad) = Inl err"
  shows "process_ad unmarshal st ad = st\<lparr>logs := logs st @ [LogUnmarshalError (ad_ID ad) err]\<rparr>"
  using assms by (simp add: process_ad_def)

lemma process_ad_unmatched:
  assumes "unmarshal (ad_Attributes ad) = Inr attrs"
    and "\<not> spec_subcategoryMatch (StepsData attrs)"
  shows "process_ad unmarshal st ad = st"
  using assms by (simp add: process_ad_def shouldInclude_loop_iff)

lemma process_ad_counted:
  assumes "unmarshal (ad_Attributes ad) = Inr attrs"
    and "spec_subcategoryMatch (StepsData attrs)"
    and "\<not> spec_hasQualifyingPayment (StepsData attrs)"
  shows "process_ad unmarshal st ad = count_adType (spec_adType (StepsData attrs)) st"
  using assms by (simp add: process_ad_def shouldInclude_loop_iff classify_loop_spec)

lemma process_ad_missing_code:
  assumes "unmarshal (ad_Attributes ad) = Inr attrs"
    and "spec_subcategoryMatch (StepsData attrs)"
    and "spec_hasQualifyingPayment (StepsData attrs)"
    and "ad_CodeNumber ad = []"
  shows "process_ad unmarshal st ad =
           (count_adType (spec_adType (StepsData attrs)) st)
             \<lparr>logs := logs st @ [LogMissingCodeNumber (ad_ID ad)]\<rparr>"
  using assms
  by (simp add: process_ad_def shouldInclude_loop_iff classify_loop_spec project_ad_def
      extract_loop_spec count_adType_def)

lemma process_ad_projected:
  assumes "unmarshal (ad_Attributes ad) = Inr attrs"
    and "spec_subcategoryMatch (StepsData attrs)"
    and "spec_hasQualifyingPayment (StepsData attrs)"
    and "ad_CodeNumber ad \<noteq> []"
  shows "process_ad unmarshal st ad =
           (count_adType (spec_adType (StepsData attrs)) st)
             \<lparr>items := items st @
                [build_item ad (spec_title (StepsData attrs)) (spec_brand (StepsData attrs))
                   (if last_with_image_imageSrc (StepsData attrs) \<noteq> []
                    then image_url (ad_DraftID ad) (last_with_image_imageSrc (StepsData attrs))
                    else [])
                   (spec_price (StepsData attrs))]\<rparr>"
  using assms
  by (simp add: process_ad_def shouldInclude_loop_iff classify_loop_spec project_ad_def
      extract_loop_spec count_adType_def)

lemma process_ads_append:
  "process_ads unmarshal st (xs @ ys) = process_ads unmarshal (process_ads unmarshal st xs) ys"
  by (simp add: process_ads_def)

lemma process_ads_Cons:
  "process_ads unmarshal st (ad # ads) = process_ads unmarshal (process_ad unmarshal st ad) ads"
  by (simp add: process_ads_def)

lemma process_ads_Nil: "process_ads unmarshal st [] = st"
  by (simp add: process_ads_def)

text \<open>The definitions needed to evaluate the sample inputs.\<close>

lemmas sample_defs =
  sample_unmarshal_def sample_steps_def sample_ad_def search_product_step_def
  delivery_step_def product_detail_step_def zero_StepData_def bags_def elsewhere_def
  allowed_def allowedSubcategories_def

section \<open>The claims\<close>

text \<open>
  Claim C1. An ad whose decoded steps have no "search_product" step with an identifier of
  the allow-list leaves the state of the run as it was: neither counter moves, no record
  is appended and nothing is logged, whatever its payment methods are; the run over a
  sequence of ads ends in the same state with that ad taken out.
\<close>

theorem C1_unmatched_ad_leaves_no_trace:
  assumes "unmarshal (ad_Attributes ad) = Inr attrs"
    and "\<not> (\<exists>step \<in> set (StepsData attrs).
              Name step = ''search_product'' \<and> allowed (ID_ID (Data_ID (Data step))))"
  shows "process_ad unmarshal st ad = st \<and>
         process_ads unmarshal st0 (before @ ad # after) =
           process_ads unmarshal st0 (before @ after)"
proof -
  have "\<not> spec_subcategoryMatch (StepsData attrs)"
    using assms(2) by (simp add: spec_subcategoryMatch_def)
  then have same: "process_ad unmarshal s ad = s" for s
    using assms(1) by (rule process_ad_unmatched[rotated])
  show ?thesis
    by (simp add: same process_ads_append process_ads_Cons)
qed

theorem C1_unmatched_ad_leaves_no_trace_witness:
  "sample_unmarshal (ad_Attributes (sample_ad ''A3'' ''789'' ''other_subcategory'')) =
     Inr \<lparr>StepsData =
       [search_product_step elsewhere ''Sofa'',
        delivery_step [''Online Payment''],
        product_detail_step ''Home'' ''900'' [''s.jpg''] ''auction'']\<rparr> \<and>
   process_ad sample_unmarshal init_state (sample_ad ''A3'' ''789'' ''other_subcategory'') =
     init_state \<and>
   process_ads sample_unmarshal init_state
     ([sample_ad ''A1'' ''123'' ''qualifying''] @ sample_ad ''A3'' ''789'' ''other_subcategory'' #
      [sample_ad ''A2'' ''456'' ''cash_only'']) =
   process_ads sample_unmarshal init_state
     ([sample_ad ''A1'' ''123'' ''qualifying''] @ [sample_ad ''A2'' ''456'' ''cash_only''])"
proof -
  let ?attrs = "\<lparr>StepsData =
       [search_product_step elsewhere ''Sofa'',
        delivery_step [''Online Payment''],
        product_detail_step ''Home'' ''900'' [''s.jpg''] ''auction'']\<rparr>"
  have decoded: "sample_unmarshal (ad_Attributes (sample_ad ''A3'' ''789'' ''other_subcategory'')) =
     Inr ?attrs"
    by (simp add: sample_unmarshal_def sample_steps_def sample_ad_def)
  have unmatched: "\<not> (\<exists>step \<in> set (StepsData ?attrs).
              Name step = ''search_product'' \<and> allowed (ID_ID (Data_ID (Data step))))"
    by (simp add: sample_defs)
  note run = C1_unmatched_ad_leaves_no_trace
    [of sample_unmarshal "sample_ad ''A3'' ''789'' ''other_subcategory''" ?attrs init_state
        init_state "[sample_ad ''A1'' ''123'' ''qualifying'']"
        "[sample_ad ''A2'' ''456'' ''cash_only'']", OF decoded unmatched]
  show ?thesis
    by (rule conjI[OF decoded run])
qed

text \<open>Decoding a sample ad looks its blob up in the table.\<close>

lemma sample_decodes:
  "map_of sample_steps blob = Some steps \<Longrightarrow>
   sample_unmarshal (ad_Attributes (sample_ad adID code blob)) = Inr \<lparr>StepsData = steps\<rparr>"
  by (simp add: sample_unmarshal_def sample_ad_def)

text \<open>
  Claim C2. An ad that matches the subcategory allow-list and has no payment value
  "Online Payment" in any "delivery_and_payment_methods" step moves exactly one counter:
  auctionCount when its extracted ad type (that of the last "product_detail" step, empty
  when there is none) is "auction", otherCount otherwise, the empty ad type included.
  Nothing else of the state changes; in particular no record is appended.
\<close>

theorem C2_counted_but_not_emitted:
  assumes "unmarshal (ad_Attributes ad) = Inr attrs"
    and "spec_subcategoryMatch (StepsData attrs)"
    and "\<not> spec_hasQualifyingPayment (StepsData attrs)"
  shows "fst (classify_loop (StepsData attrs) ('''', '''', False)) = spec_adType (StepsData attrs) \<and>
         process_ad unmarshal st ad =
           (if spec_adType (StepsData attrs) = ''auction''
            then st\<lparr>auctionCount := auctionCount st + 1\<rparr>
            else st\<lparr>otherCount := otherCount st + 1\<rparr>) \<and>
         items (process_ad unmarshal st ad) = items st"
  using process_ad_counted[of unmarshal ad attrs st, OF assms]
  by (simp add: classify_loop_spec count_adType_def)

theorem C2_counted_but_not_emitted_witness:
  "spec_subcategoryMatch
     [search_product_step bags ''Scarf'', delivery_step [''Cash''],
      product_detail_step ''Silk'' ''40'' [] ''auction''] \<and>
   \<not> spec_hasQualifyingPayment
     [search_product_step bags ''Scarf'', delivery_step [''Cash''],
      product_detail_step ''Silk'' ''40'' [] ''auction''] \<and>
   process_ad sample_unmarshal init_state (sample_ad ''A2'' ''456'' ''cash_only'') =
     init_state\<lparr>auctionCount := 1\<rparr> \<and>
   spec_subcategoryMatch [search_product_step bags ''Belt'', delivery_step [''Cash'']] \<and>
   \<not> spec_hasQualifyingPayment [search_product_step bags ''Belt'', delivery_step [''Cash'']] \<and>
   process_ad sample_unmarshal init_state (sample_ad ''A6'' ''457'' ''cash_only_plain'') =
     init_state\<lparr>otherCount := 1\<rparr>"
proof -
  let ?s1 = "[search_product_step bags ''Scarf'', delivery_step [''Cash''],
      product_detail_step ''Silk'' ''40'' [] ''auction'']"
  let ?s2 = "[search_product_step bags ''Belt'', delivery_step [''Cash'']]"
  have d1: "sample_unmarshal (ad_Attributes (sample_ad ''A2'' ''456'' ''cash_only'')) =
      Inr \<lparr>StepsData = ?s1\<rparr>"
    by (rule sample_decodes) (simp add: sample_steps_def)
  have d2: "sample_unmarshal (ad_Attributes (sample_ad ''A6'' ''457'' ''cash_only_plain'')) =
      Inr \<lparr>StepsData = ?s2\<rparr>"
    by (rule sample_decodes) (simp add: sample_steps_def)
  have m1: "spec_subcategoryMatch (StepsData \<lparr>StepsData = ?s1\<rparr>)"
    by (simp add: spec_subcategoryMatch_def sample_defs)
  have m2: "spec_subcategoryMatch (StepsData \<lparr>StepsData = ?s2\<rparr>)"
    by (simp add: spec_subcategoryMatch_def sample_defs)
  have p1: "\<not> spec_hasQualifyingPayment (StepsData \<lparr>StepsData = ?s1\<rparr>)"
    by (simp add: spec_hasQualifyingPayment_def sample_defs)
  have p2: "\<not> spec_hasQualifyingPayment (StepsData \<lparr>StepsData = ?s2\<rparr>)"
    by (simp add: spec_hasQualifyingPayment_def sample_defs)
  have t1: "spec_adType ?s1 = ''auction''"
    by (simp add: spec_adType_def spec_last_field_def spec_last_step_def sample_defs)
  have t2: "spec_adType ?s2 = ''''"
    by (simp add: spec_adType_def spec_last_field_def spec_last_step_def sample_defs)
  note r1 = C2_counted_but_not_emitted
    [of sample_unmarshal "sample_ad ''A2'' ''456'' ''cash_only''" "\<lparr>StepsData = ?s1\<rparr>"
        init_state, OF d1 m1 p1]
  note r2 = C2_counted_but_not_emitted
    [of sample_unmarshal "sample_ad ''A6'' ''457'' ''cash_only_plain''" "\<lparr>StepsData = ?s2\<rparr>"
        init_state, OF d2 m2 p2]
  have e1: "process_ad sample_unmarshal init_state (sample_ad ''A2'' ''456'' ''cash_only'') =
     init_state\<lparr>auctionCount := 1\<rparr>"
    using r1 by (simp add: t1 init_state_def)
  have e2: "process_ad sample_unmarshal init_state (sample_ad ''A6'' ''457'' ''cash_only_plain'') =
     init_state\<lparr>otherCount := 1\<rparr>"
    using r2 by (simp add: t2 init_state_def)
  show ?thesis
    using m1 p1 e1 m2 p2 e2 by simp
qed

text \<open>
  The log never feeds back into the run: two states that agree on the records and on the
  two counters still agree on them after the same ad.
\<close>

lemma process_ad_ignores_logs:
  assumes "items s = items t" and "auctionCount s = auctionCount t"
    and "otherCount s = otherCount t"
  shows "items (process_ad unmarshal s ad) = items (process_ad unmarshal t ad) \<and>
         auctionCount (process_ad unmarshal s ad) = auctionCount (process_ad unmarshal t ad) \<and>
         otherCount (process_ad unmarshal s ad) = otherCount (process_ad unmarshal t ad)"
  using assms
  by (simp add: process_ad_def project_ad_def count_adType_def Let_def
      split: sum.splits prod.splits)

lemma process_ads_ignores_logs:
  assumes "items s = items t" and "auctionCount s = auctionCount t"
    and "otherCount s = otherCount t"
  shows "items (process_ads unmarshal s ads) = items (process_ads unmarshal t ads) \<and>
         auctionCount (process_ads unmarshal s ads) = auctionCount (process_ads unmarshal t ads) \<and>
         otherCount (process_ads unmarshal s ads) = otherCount (process_ads unmarshal t ads)"
  using assms
proof (induction ads arbitrary: s t)
  case Nil
  then show ?case by (simp add: process_ads_Nil)
next
  case (Cons ad ads)
  from process_ad_ignores_logs[OF Cons.prems, of unmarshal ad]
  show ?case
    unfolding process_ads_Cons by (intro Cons.IH) simp_all
qed

text \<open>
  Claim C4. When decoding the attributes of an ad fails, the iteration only logs the
  failure: no record is appended and no counter moves. The records and counters at the end
  of a run are those of the run without that ad, and \<^verbatim>\<open>FetchAds\<close> still returns its
  records, the same ones, and no error.
\<close>

theorem C4_malformed_ad_is_skipped:
  assumes "unmarshal (ad_Attributes ad) = Inl err"
  shows "process_ad unmarshal st ad = st\<lparr>logs := logs st @ [LogUnmarshalError (ad_ID ad) err]\<rparr> \<and>
         items (process_ads unmarshal st0 (before @ ad # after)) =
           items (process_ads unmarshal st0 (before @ after)) \<and>
         auctionCount (process_ads unmarshal st0 (before @ ad # after)) =
           auctionCount (process_ads unmarshal st0 (before @ after)) \<and>
         otherCount (process_ads unmarshal st0 (before @ ad # after)) =
           otherCount (process_ads unmarshal st0 (before @ after)) \<and>
         FetchAds unmarshal (Inr (before @ ad # after)) =
           FetchAds unmarshal (Inr (before @ after))"
proof -
  have step: "process_ad unmarshal s ad = s\<lparr>logs := logs s @ [LogUnmarshalError (ad_ID ad) err]\<rparr>"
    for s
    using assms by (rule process_ad_malformed)
  have run: "items (process_ads unmarshal s0 (before @ ad # after)) =
           items (process_ads unmarshal s0 (before @ after)) \<and>
         auctionCount (process_ads unmarshal s0 (before @ ad # after)) =
           auctionCount (process_ads unmarshal s0 (before @ after)) \<and>
         otherCount (process_ads unmarshal s0 (before @ ad # after)) =
           otherCount (process_ads unmarshal s0 (before @ after))" for s0
    unfolding process_ads_append process_ads_Cons step
    by (rule process_ads_ignores_logs) simp_all
  have "FetchAds unmarshal (Inr (before @ ad # after)) =
           FetchAds unmarshal (Inr (before @ after))"
    using run[of init_state] by (simp add: FetchAds_def FetchAds_run_def log_totals_def)
  then show ?thesis
    using step[of st] run[of st0] by simp
qed

theorem C4_malformed_ad_is_skipped_witness:
  "sample_unmarshal (ad_Attributes (sample_ad ''A7'' ''700'' ''{'')) = Inl ''invalid character'' \<and>
   process_ad sample_unmarshal init_state (sample_ad ''A7'' ''700'' ''{'') =
     init_state\<lparr>logs := [LogUnmarshalError ''A7'' ''invalid character'']\<rparr> \<and>
   FetchAds sample_unmarshal
     (Inr ([sample_ad ''A2'' ''456'' ''cash_only''] @ sample_ad ''A7'' ''700'' ''{'' #
           [sample_ad ''A1'' ''123'' ''qualifying''])) =
   FetchAds sample_unmarshal
     (Inr ([sample_ad ''A2'' ''456'' ''cash_only''] @ [sample_ad ''A1'' ''123'' ''qualifying'']))"
proof -
  have bad: "sample_unmarshal (ad_Attributes (sample_ad ''A7'' ''700'' ''{'')) =
      Inl ''invalid character''"
    by (simp add: sample_unmarshal_def sample_ad_def sample_steps_def)
  note r = C4_malformed_ad_is_skipped
    [of sample_unmarshal "sample_ad ''A7'' ''700'' ''{''" "''invalid character''" init_state
        init_state "[sample_ad ''A2'' ''456'' ''cash_only'']"
        "[sample_ad ''A1'' ''123'' ''qualifying'']", OF bad]
  have e: "process_ad sample_unmarshal init_state (sample_ad ''A7'' ''700'' ''{'') =
     init_state\<lparr>logs := [LogUnmarshalError ''A7'' ''invalid character'']\<rparr>"
    using r by (simp add: init_state_def sample_ad_def)
  show ?thesis
    using bad e r by simp
qed

text \<open>
  An iteration appends at most one record, built by \<open>build_item\<close> from an ad with a
  code number.
\<close>

lemma process_ad_items:
  "items (process_ad unmarshal st ad) = items st \<or>
   (\<exists>title brand imageSrc price.
      ad_CodeNumber ad \<noteq> [] \<and>
      items (process_ad unmarshal st ad) = items st @ [build_item ad title brand imageSrc price])"
  by (auto simp: process_ad_def project_ad_def count_adType_def Let_def
      split: sum.splits prod.splits)

lemma process_ads_items_invariant:
  assumes "\<And>r. r \<in> set (items st) \<Longrightarrow> P r"
    and "\<And>ad title brand imageSrc price.
           ad \<in> set ads \<Longrightarrow> ad_CodeNumber ad \<noteq> [] \<Longrightarrow> P (build_item ad title brand imageSrc price)"
    and "r \<in> set (items (process_ads unmarshal st ads))"
  shows "P r"
  using assms
proof (induction ads arbitrary: st)
  case Nil
  then show ?case by (simp add: process_ads_Nil)
next
  case (Cons ad ads)
  have "P x" if "x \<in> set (items (process_ad unmarshal st ad))" for x
    using that process_ad_items[of unmarshal st ad] Cons.prems(1) Cons.prems(2)[of ad]
    by auto
  moreover have "r \<in> set (items (process_ads unmarshal (process_ad unmarshal st ad) ads))"
    using Cons.prems(3) by (simp add: process_ads_Cons)
  ultimately show ?case
    using Cons.IH[of "process_ad unmarshal st ad"] Cons.prems(2) by simp
qed

lemma FetchAds_items:
  "FetchAds unmarshal (Inr ads) = Inr (items (process_ads unmarshal init_state ads))"
  by (simp add: FetchAds_def FetchAds_run_def log_totals_def)

text \<open>
  Claim C5. No record that \<^verbatim>\<open>FetchAds\<close> returns has an empty code number. An ad that
  matches the allow-list and has the qualifying payment but an empty code number appends
  no record: it moves one counter, as every matching ad does, and logs that it was
  skipped.
\<close>

theorem C5_code_number_never_empty:
  "(FetchAds unmarshal response = Inr out \<longrightarrow> (\<forall>r \<in> set out. CodeNumber r \<noteq> '''')) \<and>
   (unmarshal (ad_Attributes ad) = Inr attrs \<longrightarrow>
    spec_subcategoryMatch (StepsData attrs) \<longrightarrow>
    spec_hasQualifyingPayment (StepsData attrs) \<longrightarrow>
    ad_CodeNumber ad = '''' \<longrightarrow>
      items (process_ad unmarshal st ad) = items st \<and>
      process_ad unmarshal st ad =
        (if spec_adType (StepsData attrs) = ''auction''
         then st\<lparr>auctionCount := auctionCount st + 1,
                 logs := logs st @ [LogMissingCodeNumber (ad_ID ad)]\<rparr>
         else st\<lparr>otherCount := otherCount st + 1,
                 logs := logs st @ [LogMissingCodeNumber (ad_ID ad)]\<rparr>))"
proof (intro conjI impI ballI)
  fix r
  assume out: "FetchAds unmarshal response = Inr out" and r: "r \<in> set out"
  then obtain ads where "response = Inr ads"
    and "out = items (process_ads unmarshal init_state ads)"
    by (auto simp: FetchAds_def FetchAds_run_def log_totals_def split: sum.splits)
  with r have "r \<in> set (items (process_ads unmarshal init_state ads))"
    by simp
  then show "CodeNumber r \<noteq> ''''"
    by (rule process_ads_items_invariant[rotated 2])
       (simp_all add: init_state_def build_item_def)
next
  assume a: "unmarshal (ad_Attributes ad) = Inr attrs"
    "spec_subcategoryMatch (StepsData attrs)"
    "spec_hasQualifyingPayment (StepsData attrs)"
    "ad_CodeNumber ad = ''''"
  note step = process_ad_missing_code[of unmarshal ad attrs st, OF a]
  show "items (process_ad unmarshal st ad) = items st"
    by (simp add: step count_adType_def)
  show "process_ad unmarshal st ad =
        (if spec_adType (StepsData attrs) = ''auction''
         then st\<lparr>auctionCount := auctionCount st + 1,
                 logs := logs st @ [LogMissingCodeNumber (ad_ID ad)]\<rparr>
         else st\<lparr>otherCount := otherCount st + 1,
                 logs := logs st @ [LogMissingCodeNumber (ad_ID ad)]\<rparr>)"
    by (simp add: step count_adType_def)
qed

text \<open>The iteration on the sample ad with all the fields, evaluated.\<close>

lemma sample_qualifying:
  "code \<noteq> [] \<Longrightarrow>
   process_ad sample_unmarshal st (sample_ad adID code ''qualifying'') =
     st\<lparr>items := items st @
          [\<lparr>ID = adID, Title = ''Bag  Co'', Description = ''Fine leather'',
            Link = ''https://ayshei.com/product/'' @ adID,
            ImageLink = ''https://ayshei.com/_next/image?url=https://storage.ayshei.com/prod/public/drafts/D1/web/abc/def.jpg&amp;w=3840&amp;q=75'',
            Brand = ''Acme'', Price = ''100 AED'', Availability = ''in stock'',
            CodeNumber = code\<rparr>],
        otherCount := otherCount st + 1\<rparr>"
  by (simp add: process_ad_def project_ad_def count_adType_def build_item_def image_url_def
      product_link_def LRM_def sample_defs)

theorem C5_code_number_never_empty_witness:
  "FetchAds sample_unmarshal
     (Inr [sample_ad ''A1'' ''123'' ''qualifying'', sample_ad ''A4'' '''' ''auction'']) =
   Inr [\<lparr>ID = ''A1'', Title = ''Bag  Co'', Description = ''Fine leather'',
         Link = ''https://ayshei.com/product/A1'',
         ImageLink = ''https://ayshei.com/_next/image?url=https://storage.ayshei.com/prod/public/drafts/D1/web/abc/def.jpg&amp;w=3840&amp;q=75'',
         Brand = ''Acme'', Price = ''100 AED'', Availability = ''in stock'',
         CodeNumber = ''123''\<rparr>] \<and>
   CodeNumber \<lparr>ID = ''A1'', Title = ''Bag  Co'', Description = ''Fine leather'',
         Link = ''https://ayshei.com/product/A1'',
         ImageLink = ''https://ayshei.com/_next/image?url=https://storage.ayshei.com/prod/public/drafts/D1/web/abc/def.jpg&amp;w=3840&amp;q=75'',
         Brand = ''Acme'', Price = ''100 AED'', Availability = ''in stock'',
         CodeNumber = ''123''\<rparr> \<noteq> '''' \<and>
   spec_subcategoryMatch
     [search_product_step bags ''Watch'', product_detail_step ''Tick'' ''250'' [] ''auction'',
      delivery_step [''Online Payment'']] \<and>
   spec_hasQualifyingPayment
     [search_product_step bags ''Watch'', product_detail_step ''Tick'' ''250'' [] ''auction'',
      delivery_step [''Online Payment'']] \<and>
   ad_CodeNumber (sample_ad ''A4'' '''' ''auction'') = '''' \<and>
   process_ad sample_unmarshal init_state (sample_ad ''A4'' '''' ''auction'') =
     init_state\<lparr>auctionCount := 1, logs := [LogMissingCodeNumber ''A4'']\<rparr>"
proof -
  let ?rec = "\<lparr>ID = ''A1'', Title = ''Bag  Co'', Description = ''Fine leather'',
         Link = ''https://ayshei.com/product/A1'',
         ImageLink = ''https://ayshei.com/_next/image?url=https://storage.ayshei.com/prod/public/drafts/D1/web/abc/def.jpg&amp;w=3840&amp;q=75'',
         Brand = ''Acme'', Price = ''100 AED'', Availability = ''in stock'',
         CodeNumber = ''123''\<rparr>"
  let ?ads = "[sample_ad ''A1'' ''123'' ''qualifying'', sample_ad ''A4'' '''' ''auction'']"
  let ?steps = "[search_product_step bags ''Watch'',
      product_detail_step ''Tick'' ''250'' [] ''auction'', delivery_step [''Online Payment'']]"
  have d: "sample_unmarshal (ad_Attributes (sample_ad ''A4'' '''' ''auction'')) =
      Inr \<lparr>StepsData = ?steps\<rparr>"
    by (rule sample_decodes) (simp add: sample_steps_def)
  have m: "spec_subcategoryMatch (StepsData \<lparr>StepsData = ?steps\<rparr>)"
    by (simp add: spec_subcategoryMatch_def sample_defs)
  have p: "spec_hasQualifyingPayment (StepsData \<lparr>StepsData = ?steps\<rparr>)"
    by (simp add: spec_hasQualifyingPayment_def sample_defs)
  have t: "spec_adType ?steps = ''auction''"
    by (simp add: spec_adType_def spec_last_field_def spec_last_step_def sample_defs)
  have c: "ad_CodeNumber (sample_ad ''A4'' '''' ''auction'') = ''''"
    by (simp add: sample_ad_def)
  note step = process_ad_missing_code
    [of sample_unmarshal "sample_ad ''A4'' '''' ''auction''" "\<lparr>StepsData = ?steps\<rparr>", OF d m p c]
  have out: "FetchAds sample_unmarshal (Inr ?ads) = Inr [?rec]"
    by (simp add: FetchAds_items process_ads_Cons process_ads_Nil sample_qualifying step
        count_adType_def init_state_def)
  note r = C5_code_number_never_empty
    [of sample_unmarshal "Inr ?ads" "[?rec]" "sample_ad ''A4'' '''' ''auction''"
        "\<lparr>StepsData = ?steps\<rparr>" init_state]
  from r out have "\<forall>r \<in> set [?rec]. CodeNumber r \<noteq> ''''"
    by (elim conjE) (rule mp)
  then have nonempty: "CodeNumber ?rec \<noteq> ''''"
    by (rule bspec) simp
  from r d m p c have
    "process_ad sample_unmarshal init_state (sample_ad ''A4'' '''' ''auction'') =
        (if spec_adType (StepsData \<lparr>StepsData = ?steps\<rparr>) = ''auction''
         then init_state\<lparr>auctionCount := auctionCount init_state + 1,
                 logs := logs init_state @
                   [LogMissingCodeNumber (ad_ID (sample_ad ''A4'' '''' ''auction''))]\<rparr>
         else init_state\<lparr>otherCount := otherCount init_state + 1,
                 logs := logs init_state @
                   [LogMissingCodeNumber (ad_ID (sample_ad ''A4'' '''' ''auction''))]\<rparr>)"
    by blast
  then have skipped:
    "process_ad sample_unmarshal init_state (sample_ad ''A4'' '''' ''auction'') =
       init_state\<lparr>auctionCount := 1, logs := [LogMissingCodeNumber ''A4'']\<rparr>"
    by (simp add: t init_state_def sample_ad_def)
  show ?thesis
    using out nonempty m p c skipped by simp
qed

text \<open>Blanking the ad types changes none of the loops but the ad type they extract.\<close>

lemma blank_adType_fields:
  "Name (blank_adType step) = Name step"
  "Data_ID (Data (blank_adType step)) = Data_ID (Data step)"
  "Data_InputSearchValue (Data (blank_adType step)) = Data_InputSearchValue (Data step)"
  "Data_PaymentMethods (Data (blank_adType step)) = Data_PaymentMethods (Data step)"
  "Values_Brand (Data_Values (Data (blank_adType step))) = Values_Brand (Data_Values (Data step))"
  "Values_Price (Data_Values (Data (blank_adType step))) = Values_Price (Data_Values (Data step))"
  "Values_Images (Data_Values (Data (blank_adType step))) =
     Values_Images (Data_Values (Data step))"
  by (simp_all add: blank_adType_def)

lemma shouldInclude_loop_blank:
  "shouldInclude_loop (map blank_adType steps) = shouldInclude_loop steps"
  by (induction steps) (simp_all add: blank_adType_fields)

lemma extract_loop_blank:
  "extract_loop (map blank_adType steps) acc = extract_loop steps acc"
proof (induction steps arbitrary: acc)
  case Nil
  show ?case by simp
next
  case (Cons step rest)
  obtain title brand imageSrc where acc: "acc = (title, brand, imageSrc)"
    by (cases acc)
  show ?case
    unfolding acc by (simp add: Cons.IH blank_adType_fields)
qed

lemma classify_loop_blank:
  "snd (classify_loop (map blank_adType steps) (adType, price, h)) =
   snd (classify_loop steps (adType, price, h))"
proof (induction steps arbitrary: adType price h)
  case Nil
  show ?case by simp
next
  case (Cons step rest)
  show ?case
    by (simp add: blank_adType_fields Cons.IH) (simp add: classify_loop_general)
qed

lemma items_project_ad:
  "items (project_ad ad steps price st) =
   items st @ (if ad_CodeNumber ad = [] then [] else
     [build_item ad (fst (extract_loop steps ('''', '''', '''')))
        (fst (snd (extract_loop steps ('''', '''', ''''))))
        (if snd (snd (extract_loop steps ('''', '''', ''''))) \<noteq> []
         then image_url (ad_DraftID ad) (snd (snd (extract_loop steps ('''', '''', ''''))))
         else [])
        price])"
  by (simp add: project_ad_def Let_def split: prod.splits)

lemma items_process_ad:
  "items (process_ad unmarshal st ad) =
   items st @
     (case unmarshal (ad_Attributes ad) of
        Inl err \<Rightarrow> []
      | Inr attrs \<Rightarrow>
          if shouldInclude_loop (StepsData attrs) \<and>
             snd (snd (classify_loop (StepsData attrs) ('''', '''', False)))
          then items (project_ad ad (StepsData attrs)
                 (fst (snd (classify_loop (StepsData attrs) ('''', '''', False)))) init_state)
          else [])"
  by (simp add: process_ad_def items_project_ad count_adType_def init_state_def Let_def
      split: sum.splits prod.splits)

lemma items_process_ad_blank:
  assumes "unmarshal (ad_Attributes ad) = Inr attrs"
    and "unmarshal' (ad_Attributes ad) = Inr attrs'"
    and "map blank_adType (StepsData attrs') = map blank_adType (StepsData attrs)"
  shows "items (process_ad unmarshal' st ad) = items (process_ad unmarshal st ad)"
proof -
  have inc: "shouldInclude_loop (StepsData attrs') = shouldInclude_loop (StepsData attrs)"
    using shouldInclude_loop_blank[of "StepsData attrs'"]
      shouldInclude_loop_blank[of "StepsData attrs"] assms(3) by simp
  have ext: "extract_loop (StepsData attrs') acc = extract_loop (StepsData attrs) acc" for acc
    using extract_loop_blank[of "StepsData attrs'" acc]
      extract_loop_blank[of "StepsData attrs" acc] assms(3) by simp
  have cls: "snd (classify_loop (StepsData attrs') ('''', '''', False)) =
             snd (classify_loop (StepsData attrs) ('''', '''', False))"
    using classify_loop_blank[of "StepsData attrs'" "''''" "''''" False]
      classify_loop_blank[of "StepsData attrs" "''''" "''''" False] assms(3)
    by simp
  show ?thesis
    by (simp add: items_process_ad assms(1,2) inc cls items_project_ad ext)
qed

text \<open>
  Claim C6, as amended. An ad that matches the allow-list and has the qualifying payment
  and a code number that is not empty appends exactly one record, whatever its ad type is:
  the ad type is no condition of the projection, and two decodings of the ad that differ
  in the ad types of their steps only append the same records.
\<close>

theorem C6_projection_ignores_adType:
  assumes "unmarshal (ad_Attributes ad) = Inr attrs"
    and "spec_subcategoryMatch (StepsData attrs)"
    and "spec_hasQualifyingPayment (StepsData attrs)"
    and "ad_CodeNumber ad \<noteq> ''''"
  shows "(\<exists>r. items (process_ad unmarshal st ad) = items st @ [r] \<and>
              ID r = ad_ID ad \<and> CodeNumber r = ad_CodeNumber ad) \<and>
         (\<forall>(unmarshal' :: unmarshal) attrs'.
            unmarshal' (ad_Attributes ad) = Inr attrs' \<longrightarrow>
            map blank_adType (StepsData attrs') = map blank_adType (StepsData attrs) \<longrightarrow>
            items (process_ad unmarshal' st ad) = items (process_ad unmarshal st ad))"
proof (intro conjI allI impI)
  show "\<exists>r. items (process_ad unmarshal st ad) = items st @ [r] \<and>
              ID r = ad_ID ad \<and> CodeNumber r = ad_CodeNumber ad"
    by (simp add: process_ad_projected[of unmarshal ad attrs st, OF assms] count_adType_def
        build_item_def)
next
  fix unmarshal' :: unmarshal and attrs'
  assume "unmarshal' (ad_Attributes ad) = Inr attrs'"
    and "map blank_adType (StepsData attrs') = map blank_adType (StepsData attrs)"
  with assms(1) show "items (process_ad unmarshal' st ad) = items (process_ad unmarshal st ad)"
    by (rule items_process_ad_blank)
qed

text \<open>
  Claim C6 as it was stated fails on the sample auction ad with the qualifying payment and
  an empty code number: no record is appended.
\<close>

theorem C6_counterexample:
  "sample_unmarshal (ad_Attributes (sample_ad ''A4'' '''' ''auction'')) =
     Inr \<lparr>StepsData =
       [search_product_step bags ''Watch'', product_detail_step ''Tick'' ''250'' [] ''auction'',
        delivery_step [''Online Payment'']]\<rparr> \<and>
   spec_subcategoryMatch
     [search_product_step bags ''Watch'', product_detail_step ''Tick'' ''250'' [] ''auction'',
      delivery_step [''Online Payment'']] \<and>
   spec_hasQualifyingPayment
     [search_product_step bags ''Watch'', product_detail_step ''Tick'' ''250'' [] ''auction'',
      delivery_step [''Online Payment'']] \<and>
   items (process_ad sample_unmarshal init_state (sample_ad ''A4'' '''' ''auction'')) = []"
  by (simp add: process_ad_def project_ad_def count_adType_def spec_subcategoryMatch_def
      spec_hasQualifyingPayment_def init_state_def sample_defs)

theorem C6_projection_ignores_adType_witness:
  "sample_unmarshal (ad_Attributes (sample_ad ''A4'' ''444'' ''auction'')) =
     Inr \<lparr>StepsData =
       [search_product_step bags ''Watch'', product_detail_step ''Tick'' ''250'' [] ''auction'',
        delivery_step [''Online Payment'']]\<rparr> \<and>
   spec_subcategoryMatch
     [search_product_step bags ''Watch'', product_detail_step ''Tick'' ''250'' [] ''auction'',
      delivery_step [''Online Payment'']] \<and>
   spec_hasQualifyingPayment
     [search_product_step bags ''Watch'', product_detail_step ''Tick'' ''250'' [] ''auction'',
      delivery_step [''Online Payment'']] \<and>
   ad_CodeNumber (sample_ad ''A4'' ''444'' ''auction'') \<noteq> '''' \<and>
   (\<exists>r. items (process_ad sample_unmarshal init_state (sample_ad ''A4'' ''444'' ''auction'')) = [r] \<and>
        ID r = ''A4'' \<and> CodeNumber r = ''444'') \<and>
   map blank_adType
     [search_product_step bags ''Watch'', product_detail_step ''Tick'' ''250'' [] ''buy_now'',
      delivery_step [''Online Payment'']] =
   map blank_adType
     [search_product_step bags ''Watch'', product_detail_step ''Tick'' ''250'' [] ''auction'',
      delivery_step [''Online Payment'']] \<and>
   items (process_ad
            (\<lambda>blob. Inr \<lparr>StepsData =
               [search_product_step bags ''Watch'',
                product_detail_step ''Tick'' ''250'' [] ''buy_now'',
                delivery_step [''Online Payment'']]\<rparr>)
            init_state (sample_ad ''A4'' ''444'' ''auction'')) =
   items (process_ad sample_unmarshal init_state (sample_ad ''A4'' ''444'' ''auction''))"
proof -
  let ?ad = "sample_ad ''A4'' ''444'' ''auction''"
  let ?steps = "[search_product_step bags ''Watch'',
      product_detail_step ''Tick'' ''250'' [] ''auction'', delivery_step [''Online Payment'']]"
  let ?steps' = "[search_product_step bags ''Watch'',
      product_detail_step ''Tick'' ''250'' [] ''buy_now'', delivery_step [''Online Payment'']]"
  let ?other = "\<lambda>blob :: string. Inr \<lparr>StepsData = ?steps'\<rparr> :: string + AdAttributes"
  have d: "sample_unmarshal (ad_Attributes ?ad) = Inr \<lparr>StepsData = ?steps\<rparr>"
    by (rule sample_decodes) (simp add: sample_steps_def)
  have m: "spec_subcategoryMatch (StepsData \<lparr>StepsData = ?steps\<rparr>)"
    by (simp add: spec_subcategoryMatch_def sample_defs)
  have p: "spec_hasQualifyingPayment (StepsData \<lparr>StepsData = ?steps\<rparr>)"
    by (simp add: spec_hasQualifyingPayment_def sample_defs)
  have c: "ad_CodeNumber ?ad \<noteq> ''''"
    by (simp add: sample_ad_def)
  have d': "?other (ad_Attributes ?ad) = Inr \<lparr>StepsData = ?steps'\<rparr>"
    by simp
  have b: "map blank_adType (StepsData \<lparr>StepsData = ?steps'\<rparr>) =
           map blank_adType (StepsData \<lparr>StepsData = ?steps\<rparr>)"
    by (simp add: blank_adType_def product_detail_step_def)
  note r = C6_projection_ignores_adType
    [of sample_unmarshal ?ad "\<lparr>StepsData = ?steps\<rparr>" init_state, OF d m p c]
  from r have emitted:
    "\<exists>r. items (process_ad sample_unmarshal init_state ?ad) = [r] \<and>
         ID r = ''A4'' \<and> CodeNumber r = ''444''"
    by (simp add: init_state_def sample_ad_def)
  note same = conjunct2[OF r, rule_format, of ?other "\<lparr>StepsData = ?steps'\<rparr>", OF d' b]
  show ?thesis
    using d m p c emitted b same by simp
qed

text \<open>
  Claim C7. For a projected ad (allow-listed subcategory, qualifying payment, code number
  not empty) the image link of its record is empty when the image source that the loop of
  lines 164-173 extracted is empty, and otherwise the fixed template with the draft id and
  the image source put in unchanged; for the draft id "D1" and the image source
  "abc/def.jpg" it is the URL that the specification spells out.
\<close>

theorem C7_image_link:
  assumes "unmarshal (ad_Attributes ad) = Inr attrs"
    and "spec_subcategoryMatch (StepsData attrs)"
    and "spec_hasQualifyingPayment (StepsData attrs)"
    and "ad_CodeNumber ad \<noteq> ''''"
    and "extract_loop (StepsData attrs) ('''', '''', '''') = (title, brand, imageSrc)"
  shows "\<exists>r. items (process_ad unmarshal st ad) = items st @ [r] \<and>
           ImageLink r =
             (if imageSrc = '''' then ''''
              else ''https://ayshei.com/_next/image?url=https://storage.ayshei.com/prod/public/drafts/''
                     @ ad_DraftID ad @ ''/web/'' @ imageSrc @ ''&amp;w=3840&amp;q=75'') \<and>
           (ad_DraftID ad = ''D1'' \<longrightarrow> imageSrc = ''abc/def.jpg'' \<longrightarrow>
              ImageLink r =
                ''https://ayshei.com/_next/image?url=https://storage.ayshei.com/prod/public/drafts/D1/web/abc/def.jpg&amp;w=3840&amp;q=75'')"
proof -
  have img: "last_with_image_imageSrc (StepsData attrs) = imageSrc"
    using assms(5) by (simp add: extract_loop_spec)
  show ?thesis
    by (simp add: process_ad_projected[of unmarshal ad attrs st, OF assms(1-4)] img
        count_adType_def build_item_def image_url_def)
qed

theorem C7_image_link_witness:
  "sample_unmarshal (ad_Attributes (sample_ad ''A1'' ''123'' ''qualifying'')) =
     Inr \<lparr>StepsData =
       [search_product_step bags ''Bag & Co'', delivery_step [''Cash'', ''Online Payment''],
        product_detail_step ''Acme'' ''100'' [''abc/def.jpg'', ''x.jpg''] ''buy_now'']\<rparr> \<and>
   spec_subcategoryMatch
     [search_product_step bags ''Bag & Co'', delivery_step [''Cash'', ''Online Payment''],
      product_detail_step ''Acme'' ''100'' [''abc/def.jpg'', ''x.jpg''] ''buy_now''] \<and>
   spec_hasQualifyingPayment
     [search_product_step bags ''Bag & Co'', delivery_step [''Cash'', ''Online Payment''],
      product_detail_step ''Acme'' ''100'' [''abc/def.jpg'', ''x.jpg''] ''buy_now''] \<and>
   ad_CodeNumber (sample_ad ''A1'' ''123'' ''qualifying'') \<noteq> '''' \<and>
   extract_loop
     [search_product_step bags ''Bag & Co'', delivery_step [''Cash'', ''Online Payment''],
      product_detail_step ''Acme'' ''100'' [''abc/def.jpg'', ''x.jpg''] ''buy_now'']
     ('''', '''', '''') = (''Bag & Co'', ''Acme'', ''abc/def.jpg'') \<and>
   ad_DraftID (sample_ad ''A1'' ''123'' ''qualifying'') = ''D1'' \<and>
   (\<exists>r. items (process_ad sample_unmarshal init_state (sample_ad ''A1'' ''123'' ''qualifying'')) =
          [r] \<and>
        ImageLink r =
          ''https://ayshei.com/_next/image?url=https://storage.ayshei.com/prod/public/drafts/D1/web/abc/def.jpg&amp;w=3840&amp;q=75'')"
proof -
  let ?ad = "sample_ad ''A1'' ''123'' ''qualifying''"
  let ?steps = "[search_product_step bags ''Bag & Co'',
      delivery_step [''Cash'', ''Online Payment''],
      product_detail_step ''Acme'' ''100'' [''abc/def.jpg'', ''x.jpg''] ''buy_now'']"
  have d: "sample_unmarshal (ad_Attributes ?ad) = Inr \<lparr>StepsData = ?steps\<rparr>"
    by (rule sample_decodes) (simp add: sample_steps_def)
  have m: "spec_subcategoryMatch (StepsData \<lparr>StepsData = ?steps\<rparr>)"
    by (simp add: spec_subcategoryMatch_def sample_defs)
  have p: "spec_hasQualifyingPayment (StepsData \<lparr>StepsData = ?steps\<rparr>)"
    by (simp add: spec_hasQualifyingPayment_def sample_defs)
  have c: "ad_CodeNumber ?ad \<noteq> ''''"
    by (simp add: sample_ad_def)
  have e: "extract_loop (StepsData \<lparr>StepsData = ?steps\<rparr>) ('''', '''', '''') =
      (''Bag & Co'', ''Acme'', ''abc/def.jpg'')"
    by (simp add: sample_defs)
  have dr: "ad_DraftID ?ad = ''D1''"
    by (simp add: sample_ad_def)
  note r = C7_image_link
    [of sample_unmarshal ?ad "\<lparr>StepsData = ?steps\<rparr>" "''Bag & Co''" "''Acme''"
        "''abc/def.jpg''" init_state, OF d m p c e]
  from r dr have link:
    "\<exists>r. items (process_ad sample_unmarshal init_state ?ad) = [r] \<and>
        ImageLink r =
          ''https://ayshei.com/_next/image?url=https://storage.ayshei.com/prod/public/drafts/D1/web/abc/def.jpg&amp;w=3840&amp;q=75''"
    by (simp add: init_state_def)
  show ?thesis
    using d m p c e dr link by simp
qed

lemma spec_last_step_None_iff:
  "spec_last_step P steps = None \<longleftrightarrow> \<not> (\<exists>step \<in> set steps. P step)"
proof -
  have "filter P steps = [] \<longleftrightarrow> \<not> (\<exists>step \<in> set steps. P step)"
    by (simp add: filter_empty_conv)
  then show ?thesis
    by (cases "filter P steps") (simp_all add: spec_last_step_def)
qed

text \<open>
  Claim C10. For a projected ad with no "product_detail" step, or whose last
  "product_detail" step has an empty price, the record is still appended and its price is
  the bare suffix " AED".
\<close>

theorem C10_price_without_number:
  assumes "unmarshal (ad_Attributes ad) = Inr attrs"
    and "spec_subcategoryMatch (StepsData attrs)"
    and "spec_hasQualifyingPayment (StepsData attrs)"
    and "ad_CodeNumber ad \<noteq> ''''"
    and "\<not> (\<exists>step \<in> set (StepsData attrs). Name step = ''product_detail'') \<or>
         (\<exists>step. spec_last_step (\<lambda>step. Name step = ''product_detail'') (StepsData attrs) =
                   Some step \<and>
                 Values_Price (Data_Values (Data step)) = '''')"
  shows "\<exists>r. items (process_ad unmarshal st ad) = items st @ [r] \<and> Price r = '' AED''"
proof -
  have "spec_price (StepsData attrs) = ''''"
  proof (cases "spec_last_step (\<lambda>step. Name step = ''product_detail'') (StepsData attrs)")
    case None
    then show ?thesis
      by (simp add: spec_price_def spec_last_field_def)
  next
    case (Some step)
    then have "\<exists>s \<in> set (StepsData attrs). Name s = ''product_detail''"
      using spec_last_step_None_iff[of "\<lambda>step. Name step = ''product_detail''" "StepsData attrs"]
      by simp
    with assms(5) Some have "Values_Price (Data_Values (Data step)) = ''''"
      by auto
    with Some show ?thesis
      by (simp add: spec_price_def spec_last_field_def)
  qed
  then show ?thesis
    by (simp add: process_ad_projected[of unmarshal ad attrs st, OF assms(1-4)]
        count_adType_def build_item_def)
qed

theorem C10_price_without_number_witness:
  "spec_subcategoryMatch [search_product_step bags ''Hat'', delivery_step [''Online Payment'']] \<and>
   spec_hasQualifyingPayment
     [search_product_step bags ''Hat'', delivery_step [''Online Payment'']] \<and>
   ad_CodeNumber (sample_ad ''A9'' ''900'' ''no_detail'') \<noteq> '''' \<and>
   \<not> (\<exists>step \<in> set [search_product_step bags ''Hat'', delivery_step [''Online Payment'']].
          Name step = ''product_detail'') \<and>
   (\<exists>r. items (process_ad sample_unmarshal init_state (sample_ad ''A9'' ''900'' ''no_detail'')) =
          [r] \<and> Price r = '' AED'') \<and>
   spec_subcategoryMatch
     [search_product_step bags ''Cap'', product_detail_step ''Brim'' ''75'' [] ''buy_now'',
      delivery_step [''Online Payment''], product_detail_step ''Brim'' '''' [] ''buy_now''] \<and>
   spec_hasQualifyingPayment
     [search_product_step bags ''Cap'', product_detail_step ''Brim'' ''75'' [] ''buy_now'',
      delivery_step [''Online Payment''], product_detail_step ''Brim'' '''' [] ''buy_now''] \<and>
   spec_last_step (\<lambda>step. Name step = ''product_detail'')
     [search_product_step bags ''Cap'', product_detail_step ''Brim'' ''75'' [] ''buy_now'',
      delivery_step [''Online Payment''], product_detail_step ''Brim'' '''' [] ''buy_now''] =
     Some (product_detail_step ''Brim'' '''' [] ''buy_now'') \<and>
   Values_Price (Data_Values (Data (product_detail_step ''Brim'' '''' [] ''buy_now''))) = '''' \<and>
   (\<exists>r. items (process_ad sample_unmarshal init_state (sample_ad ''A10'' ''901'' ''empty_price'')) =
          [r] \<and> Price r = '' AED'')"
proof -
  let ?ad1 = "sample_ad ''A9'' ''900'' ''no_detail''"
  let ?s1 = "[search_product_step bags ''Hat'', delivery_step [''Online Payment'']]"
  let ?ad2 = "sample_ad ''A10'' ''901'' ''empty_price''"
  let ?s2 = "[search_product_step bags ''Cap'',
      product_detail_step ''Brim'' ''75'' [] ''buy_now'', delivery_step [''Online Payment''],
      product_detail_step ''Brim'' '''' [] ''buy_now'']"
  have d1: "sample_unmarshal (ad_Attributes ?ad1) = Inr \<lparr>StepsData = ?s1\<rparr>"
    by (rule sample_decodes) (simp add: sample_steps_def)
  have d2: "sample_unmarshal (ad_Attributes ?ad2) = Inr \<lparr>StepsData = ?s2\<rparr>"
    by (rule sample_decodes) (simp add: sample_steps_def)
  have m1: "spec_subcategoryMatch (StepsData \<lparr>StepsData = ?s1\<rparr>)"
    by (simp add: spec_subcategoryMatch_def sample_defs)
  have m2: "spec_subcategoryMatch (StepsData \<lparr>StepsData = ?s2\<rparr>)"
    by (simp add: spec_subcategoryMatch_def sample_defs)
  have p1: "spec_hasQualifyingPayment (StepsData \<lparr>StepsData = ?s1\<rparr>)"
    by (simp add: spec_hasQualifyingPayment_def sample_defs)
  have p2: "spec_hasQualifyingPayment (StepsData \<lparr>StepsData = ?s2\<rparr>)"
    by (simp add: spec_hasQualifyingPayment_def sample_defs)
  have c1: "ad_CodeNumber ?ad1 \<noteq> ''''" and c2: "ad_CodeNumber ?ad2 \<noteq> ''''"
    by (simp_all add: sample_ad_def)
  have n1: "\<not> (\<exists>step \<in> set (StepsData \<lparr>StepsData = ?s1\<rparr>). Name step = ''product_detail'')"
    by (simp add: sample_defs)
  have l2: "spec_last_step (\<lambda>step. Name step = ''product_detail'')
      (StepsData \<lparr>StepsData = ?s2\<rparr>) = Some (product_detail_step ''Brim'' '''' [] ''buy_now'')"
    by (simp add: spec_last_step_def search_product_step_def delivery_step_def
        product_detail_step_def)
  have e2: "Values_Price (Data_Values (Data (product_detail_step ''Brim'' '''' [] ''buy_now''))) =
      ''''"
    by (simp add: product_detail_step_def)
  have h1: "\<not> (\<exists>step \<in> set (StepsData \<lparr>StepsData = ?s1\<rparr>). Name step = ''product_detail'') \<or>
         (\<exists>step. spec_last_step (\<lambda>step. Name step = ''product_detail'')
                   (StepsData \<lparr>StepsData = ?s1\<rparr>) = Some step \<and>
                 Values_Price (Data_Values (Data step)) = '''')"
    using n1 by (rule disjI1)
  have h2: "\<not> (\<exists>step \<in> set (StepsData \<lparr>StepsData = ?s2\<rparr>). Name step = ''product_detail'') \<or>
         (\<exists>step. spec_last_step (\<lambda>step. Name step = ''product_detail'')
                   (StepsData \<lparr>StepsData = ?s2\<rparr>) = Some step \<and>
                 Values_Price (Data_Values (Data step)) = '''')"
    using l2 e2 by blast
  note r1 = C10_price_without_number
    [of sample_unmarshal ?ad1 "\<lparr>StepsData = ?s1\<rparr>" init_state, OF d1 m1 p1 c1 h1]
  note r2 = C10_price_without_number
    [of sample_unmarshal ?ad2 "\<lparr>StepsData = ?s2\<rparr>" init_state, OF d2 m2 p2 c2 h2]
  have o1: "\<exists>r. items (process_ad sample_unmarshal init_state ?ad1) = [r] \<and> Price r = '' AED''"
    using r1 by (simp add: init_state_def)
  have o2: "\<exists>r. items (process_ad sample_unmarshal init_state ?ad2) = [r] \<and> Price r = '' AED''"
    using r2 by (simp add: init_state_def)
  show ?thesis
    using m1 p1 c1 n1 o1 m2 p2 l2 e2 o2 by simp
qed

lemma spec_last_step_refine:
  assumes "spec_last_step P steps = Some step" and "Q step"
  shows "spec_last_step (\<lambda>s. P s \<and> Q s) steps = Some step"
  using assms
proof (induction steps)
  case Nil
  then show ?case by (simp add: spec_last_step_Nil)
next
  case (Cons x rest)
  show ?case
  proof (cases "spec_last_step P rest")
    case None
    then have "spec_last_step (\<lambda>s. P s \<and> Q s) rest = None"
      by (simp add: spec_last_step_None_iff)
    with None Cons.prems show ?thesis
      by (simp add: spec_last_step_Cons split: if_splits)
  next
    case (Some s)
    with Cons show ?thesis
      by (simp add: spec_last_step_Cons)
  qed
qed

text \<open>
  Claim C3, as amended. Whatever the steps are, duplicated names included, the title is
  that of the last "search_product" step, and the brand, the price and the ad type are
  those of the last "product_detail" step (each empty when no step has the name). The
  image source is the source of the first image of the last "product_detail" step that
  has an image, empty when none has one; it is the value of the last "product_detail"
  step whenever that step has an image.
\<close>

theorem C3_last_occurrence_wins:
  "extract_loop steps ('''', '''', '''') =
     (spec_title steps, spec_brand steps, last_with_image_imageSrc steps) \<and>
   fst (classify_loop steps ('''', '''', False)) = spec_adType steps \<and>
   fst (snd (classify_loop steps ('''', '''', False))) = spec_price steps \<and>
   (\<forall>step. spec_last_step (\<lambda>s. Name s = ''product_detail'') steps = Some step \<longrightarrow>
           Values_Images (Data_Values (Data step)) \<noteq> [] \<longrightarrow>
           last_with_image_imageSrc steps = spec_imageSrc steps)"
proof (intro conjI allI impI)
  show "extract_loop steps ('''', '''', '''') =
     (spec_title steps, spec_brand steps, last_with_image_imageSrc steps)"
    by (rule extract_loop_spec)
  show "fst (classify_loop steps ('''', '''', False)) = spec_adType steps"
    by (simp add: classify_loop_spec)
  show "fst (snd (classify_loop steps ('''', '''', False))) = spec_price steps"
    by (simp add: classify_loop_spec)
next
  fix step
  assume last: "spec_last_step (\<lambda>s. Name s = ''product_detail'') steps = Some step"
    and img: "Values_Images (Data_Values (Data step)) \<noteq> []"
  from spec_last_step_refine[of "\<lambda>s. Name s = ''product_detail''" steps step
      "\<lambda>s. Values_Images (Data_Values (Data s)) \<noteq> []", OF last img]
  show "last_with_image_imageSrc steps = spec_imageSrc steps"
    using last by (simp add: last_with_image_imageSrc_def spec_imageSrc_def spec_last_field_def)
qed

text \<open>
  Claim C3 as it was stated fails for the image source: in the sample ad with duplicated
  steps the last "product_detail" step has no image, and the record carries the image of
  the earlier one.
\<close>

theorem C3_counterexample:
  "spec_last_step (\<lambda>s. Name s = ''product_detail'')
     [search_product_step elsewhere ''Old title'',
      product_detail_step ''Old'' ''1'' [''old.jpg''] ''auction'',
      search_product_step bags ''New title'',
      delivery_step [''Online Payment''],
      product_detail_step ''New'' ''2'' [] ''buy_now''] =
     Some (product_detail_step ''New'' ''2'' [] ''buy_now'') \<and>
   Values_Images (Data_Values (Data (product_detail_step ''New'' ''2'' [] ''buy_now''))) = [] \<and>
   spec_imageSrc
     [search_product_step elsewhere ''Old title'',
      product_detail_step ''Old'' ''1'' [''old.jpg''] ''auction'',
      search_product_step bags ''New title'',
      delivery_step [''Online Payment''],
      product_detail_step ''New'' ''2'' [] ''buy_now''] = '''' \<and>
   extract_loop
     [search_product_step elsewhere ''Old title'',
      product_detail_step ''Old'' ''1'' [''old.jpg''] ''auction'',
      search_product_step bags ''New title'',
      delivery_step [''Online Payment''],
      product_detail_step ''New'' ''2'' [] ''buy_now'']
     ('''', '''', '''') = (''New title'', ''New'', ''old.jpg'') \<and>
   items (process_ad sample_unmarshal init_state (sample_ad ''A5'' ''555'' ''duplicates'')) =
     [\<lparr>ID = ''A5'', Title = ''New title'', Description = ''Fine leather'',
       Link = ''https://ayshei.com/product/A5'',
       ImageLink = ''https://ayshei.com/_next/image?url=https://storage.ayshei.com/prod/public/drafts/D1/web/old.jpg&amp;w=3840&amp;q=75'',
       Brand = ''New'', Price = ''2 AED'', Availability = ''in stock'',
       CodeNumber = ''555''\<rparr>]"
proof (intro conjI)
  show "spec_last_step (\<lambda>s. Name s = ''product_detail'')
     [search_product_step elsewhere ''Old title'',
      product_detail_step ''Old'' ''1'' [''old.jpg''] ''auction'',
      search_product_step bags ''New title'',
      delivery_step [''Online Payment''],
      product_detail_step ''New'' ''2'' [] ''buy_now''] =
     Some (product_detail_step ''New'' ''2'' [] ''buy_now'')"
    by (simp add: spec_last_step_def search_product_step_def delivery_step_def
        product_detail_step_def)
  show "Values_Images (Data_Values (Data (product_detail_step ''New'' ''2'' [] ''buy_now''))) = []"
    by (simp add: product_detail_step_def)
  show "spec_imageSrc
     [search_product_step elsewhere ''Old title'',
      product_detail_step ''Old'' ''1'' [''old.jpg''] ''auction'',
      search_product_step bags ''New title'',
      delivery_step [''Online Payment''],
      product_detail_step ''New'' ''2'' [] ''buy_now''] = ''''"
    by (simp add: spec_imageSrc_def spec_last_field_def spec_last_step_def
        search_product_step_def delivery_step_def product_detail_step_def)
  show "extract_loop
     [search_product_step elsewhere ''Old title'',
      product_detail_step ''Old'' ''1'' [''old.jpg''] ''auction'',
      search_product_step bags ''New title'',
      delivery_step [''Online Payment''],
      product_detail_step ''New'' ''2'' [] ''buy_now'']
     ('''', '''', '''') = (''New title'', ''New'', ''old.jpg'')"
    by (simp add: search_product_step_def delivery_step_def product_detail_step_def)
  show "items (process_ad sample_unmarshal init_state (sample_ad ''A5'' ''555'' ''duplicates'')) =
     [\<lparr>ID = ''A5'', Title = ''New title'', Description = ''Fine leather'',
       Link = ''https://ayshei.com/product/A5'',
       ImageLink = ''https://ayshei.com/_next/image?url=https://storage.ayshei.com/prod/public/drafts/D1/web/old.jpg&amp;w=3840&amp;q=75'',
       Brand = ''New'', Price = ''2 AED'', Availability = ''in stock'',
       CodeNumber = ''555''\<rparr>]"
    by (simp add: process_ad_def project_ad_def count_adType_def build_item_def image_url_def
        product_link_def LRM_def init_state_def sample_defs)
qed

theorem C3_last_occurrence_wins_witness:
  "extract_loop
     [search_product_step bags ''Cap'', product_detail_step ''Brim'' ''75'' [''c.jpg''] ''auction'',
      search_product_step bags ''Cap 2'', product_detail_step ''Rim'' ''80'' [''d.jpg''] ''buy_now'']
     ('''', '''', '''') = (''Cap 2'', ''Rim'', ''d.jpg'') \<and>
   fst (classify_loop
     [search_product_step bags ''Cap'', product_detail_step ''Brim'' ''75'' [''c.jpg''] ''auction'',
      search_product_step bags ''Cap 2'', product_detail_step ''Rim'' ''80'' [''d.jpg''] ''buy_now'']
     ('''', '''', False)) = ''buy_now'' \<and>
   fst (snd (classify_loop
     [search_product_step bags ''Cap'', product_detail_step ''Brim'' ''75'' [''c.jpg''] ''auction'',
      search_product_step bags ''Cap 2'', product_detail_step ''Rim'' ''80'' [''d.jpg''] ''buy_now'']
     ('''', '''', False))) = ''80'' \<and>
   spec_last_step (\<lambda>s. Name s = ''product_detail'')
     [search_product_step bags ''Cap'', product_detail_step ''Brim'' ''75'' [''c.jpg''] ''auction'',
      search_product_step bags ''Cap 2'', product_detail_step ''Rim'' ''80'' [''d.jpg''] ''buy_now''] =
     Some (product_detail_step ''Rim'' ''80'' [''d.jpg''] ''buy_now'') \<and>
   Values_Images (Data_Values (Data (product_detail_step ''Rim'' ''80'' [''d.jpg''] ''buy_now''))) \<noteq>
     [] \<and>
   last_with_image_imageSrc
     [search_product_step bags ''Cap'', product_detail_step ''Brim'' ''75'' [''c.jpg''] ''auction'',
      search_product_step bags ''Cap 2'', product_detail_step ''Rim'' ''80'' [''d.jpg''] ''buy_now''] =
   spec_imageSrc
     [search_product_step bags ''Cap'', product_detail_step ''Brim'' ''75'' [''c.jpg''] ''auction'',
      search_product_step bags ''Cap 2'', product_detail_step ''Rim'' ''80'' [''d.jpg''] ''buy_now'']"
proof -
  let ?steps = "[search_product_step bags ''Cap'',
      product_detail_step ''Brim'' ''75'' [''c.jpg''] ''auction'',
      search_product_step bags ''Cap 2'',
      product_detail_step ''Rim'' ''80'' [''d.jpg''] ''buy_now'']"
  note r = C3_last_occurrence_wins[of ?steps]
  have t: "spec_title ?steps = ''Cap 2''"
    by (simp add: spec_title_def spec_last_field_def spec_last_step_def
        search_product_step_def product_detail_step_def)
  have b: "spec_brand ?steps = ''Rim''"
    by (simp add: spec_brand_def spec_last_field_def spec_last_step_def
        search_product_step_def product_detail_step_def)
  have i: "last_with_image_imageSrc ?steps = ''d.jpg''"
    by (simp add: last_with_image_imageSrc_def spec_last_step_def
        search_product_step_def product_detail_step_def)
  have a: "spec_adType ?steps = ''buy_now''"
    by (simp add: spec_adType_def spec_last_field_def spec_last_step_def
        search_product_step_def product_detail_step_def)
  have p: "spec_price ?steps = ''80''"
    by (simp add: spec_price_def spec_last_field_def spec_last_step_def
        search_product_step_def product_detail_step_def)
  have loops: "extract_loop ?steps ('''', '''', '''') = (''Cap 2'', ''Rim'', ''d.jpg'') \<and>
      fst (classify_loop ?steps ('''', '''', False)) = ''buy_now'' \<and>
      fst (snd (classify_loop ?steps ('''', '''', False))) = ''80''"
    unfolding r[THEN conjunct1] r[THEN conjunct2, THEN conjunct1]
      r[THEN conjunct2, THEN conjunct2, THEN conjunct1] t b i a p
    by simp
  have l: "spec_last_step (\<lambda>s. Name s = ''product_detail'') ?steps =
      Some (product_detail_step ''Rim'' ''80'' [''d.jpg''] ''buy_now'')"
    by (simp add: spec_last_step_def search_product_step_def product_detail_step_def)
  have g: "Values_Images (Data_Values (Data (product_detail_step ''Rim'' ''80'' [''d.jpg''] ''buy_now''))) \<noteq>
      []"
    by (simp add: product_detail_step_def)
  note same = r[THEN conjunct2, THEN conjunct2, THEN conjunct2, rule_format, OF l g]
  show ?thesis
    using loops l g same by simp
qed

text \<open>The records of a run: those of the start state, then those of each ad in turn.\<close>

lemma items_process_ad_init:
  "items (process_ad unmarshal st ad) = items st @ items (process_ad unmarshal init_state ad)"
proof -
  have "items init_state = []"
    by (simp add: init_state_def)
  then show ?thesis
    unfolding items_process_ad[of unmarshal st ad] items_process_ad[of unmarshal init_state ad]
    by simp
qed

lemma items_process_ads:
  "items (process_ads unmarshal st ads) =
   items st @ concat (map (\<lambda>ad. items (process_ad unmarshal init_state ad)) ads)"
proof (induction ads arbitrary: st)
  case Nil
  show ?case by (simp add: process_ads_Nil)
next
  case (Cons ad ads)
  show ?case
    by (simp add: process_ads_Cons Cons.IH items_process_ad_init[of unmarshal st ad])
qed

text \<open>
  Claim C9. The records of a run are a function of the fetched ads alone: each ad
  contributes the records of its own iteration, in source order, whatever the counters and
  the log hold. Two runs over the same ads therefore return the same sequence of records.
\<close>

theorem C9_records_determined_by_ads:
  "items (process_ads unmarshal st ads) =
     items st @ concat (map (\<lambda>ad. items (process_ad unmarshal init_state ad)) ads) \<and>
   FetchAds unmarshal (Inr ads) =
     Inr (concat (map (\<lambda>ad. items (process_ad unmarshal init_state ad)) ads)) \<and>
   (\<forall>st1 st2. items st1 = items st2 \<longrightarrow>
      items (process_ads unmarshal st1 ads) = items (process_ads unmarshal st2 ads))"
  by (simp add: items_process_ads FetchAds_items init_state_def)

theorem C9_records_determined_by_ads_witness:
  "FetchAds sample_unmarshal
     (Inr [sample_ad ''A1'' ''123'' ''qualifying'', sample_ad ''A2'' ''456'' ''cash_only'',
           sample_ad ''A5'' ''555'' ''duplicates'']) =
   Inr [\<lparr>ID = ''A1'', Title = ''Bag  Co'', Description = ''Fine leather'',
         Link = ''https://ayshei.com/product/A1'',
         ImageLink = ''https://ayshei.com/_next/image?url=https://storage.ayshei.com/prod/public/drafts/D1/web/abc/def.jpg&amp;w=3840&amp;q=75'',
         Brand = ''Acme'', Price = ''100 AED'', Availability = ''in stock'',
         CodeNumber = ''123''\<rparr>,
        \<lparr>ID = ''A5'', Title = ''New title'', Description = ''Fine leather'',
         Link = ''https://ayshei.com/product/A5'',
         ImageLink = ''https://ayshei.com/_next/image?url=https://storage.ayshei.com/prod/public/drafts/D1/web/old.jpg&amp;w=3840&amp;q=75'',
         Brand = ''New'', Price = ''2 AED'', Availability = ''in stock'',
         CodeNumber = ''555''\<rparr>] \<and>
   items (process_ads sample_unmarshal
            \<lparr>items = [], auctionCount = 7, otherCount = 0, logs = [LogTotalOther 3]\<rparr>
            [sample_ad ''A1'' ''123'' ''qualifying'', sample_ad ''A2'' ''456'' ''cash_only'',
             sample_ad ''A5'' ''555'' ''duplicates'']) =
   items (process_ads sample_unmarshal init_state
            [sample_ad ''A1'' ''123'' ''qualifying'', sample_ad ''A2'' ''456'' ''cash_only'',
             sample_ad ''A5'' ''555'' ''duplicates''])"
proof -
  let ?ads = "[sample_ad ''A1'' ''123'' ''qualifying'', sample_ad ''A2'' ''456'' ''cash_only'',
           sample_ad ''A5'' ''555'' ''duplicates'']"
  let ?st = "\<lparr>items = [], auctionCount = 7, otherCount = 0, logs = [LogTotalOther 3]\<rparr>"
  note r = C9_records_determined_by_ads[of sample_unmarshal init_state ?ads]
  have e1: "items (process_ad sample_unmarshal init_state (sample_ad ''A1'' ''123'' ''qualifying'')) =
      [\<lparr>ID = ''A1'', Title = ''Bag  Co'', Description = ''Fine leather'',
         Link = ''https://ayshei.com/product/A1'',
         ImageLink = ''https://ayshei.com/_next/image?url=https://storage.ayshei.com/prod/public/drafts/D1/web/abc/def.jpg&amp;w=3840&amp;q=75'',
         Brand = ''Acme'', Price = ''100 AED'', Availability = ''in stock'',
         CodeNumber = ''123''\<rparr>]"
    by (simp add: sample_qualifying init_state_def)
  have e2: "items (process_ad sample_unmarshal init_state (sample_ad ''A2'' ''456'' ''cash_only'')) =
      []"
    by (simp add: process_ad_def count_adType_def init_state_def sample_defs)
  have e3: "items (process_ad sample_unmarshal init_state (sample_ad ''A5'' ''555'' ''duplicates'')) =
      [\<lparr>ID = ''A5'', Title = ''New title'', Description = ''Fine leather'',
         Link = ''https://ayshei.com/product/A5'',
         ImageLink = ''https://ayshei.com/_next/image?url=https://storage.ayshei.com/prod/public/drafts/D1/web/old.jpg&amp;w=3840&amp;q=75'',
         Brand = ''New'', Price = ''2 AED'', Availability = ''in stock'',
         CodeNumber = ''555''\<rparr>]"
    by (simp add: process_ad_def project_ad_def count_adType_def build_item_def image_url_def
        product_link_def LRM_def init_state_def sample_defs)
  have out: "FetchAds sample_unmarshal (Inr ?ads) =
   Inr [\<lparr>ID = ''A1'', Title = ''Bag  Co'', Description = ''Fine leather'',
         Link = ''https://ayshei.com/product/A1'',
         ImageLink = ''https://ayshei.com/_next/image?url=https://storage.ayshei.com/prod/public/drafts/D1/web/abc/def.jpg&amp;w=3840&amp;q=75'',
         Brand = ''Acme'', Price = ''100 AED'', Availability = ''in stock'',
         CodeNumber = ''123''\<rparr>,
        \<lparr>ID = ''A5'', Title = ''New title'', Description = ''Fine leather'',
         Link = ''https://ayshei.com/product/A5'',
         ImageLink = ''https://ayshei.com/_next/image?url=https://storage.ayshei.com/prod/public/drafts/D1/web/old.jpg&amp;w=3840&amp;q=75'',
         Brand = ''New'', Price = ''2 AED'', Availability = ''in stock'',
         CodeNumber = ''555''\<rparr>]"
    unfolding r[THEN conjunct2, THEN conjunct1] by (simp add: e1 e2 e3)
  have i: "items ?st = items init_state"
    by (simp add: init_state_def)
  note same = r[THEN conjunct2, THEN conjunct2, rule_format, of ?st init_state, OF i]
  show ?thesis
    by (rule conjI[OF out same])
qed

text \<open>Removing a single character is filtering it out.\<close>

lemma ReplaceAll_empty_single: "ReplaceAll_empty s [c] = filter (\<lambda>x. x \<noteq> c) s"
  by (induction s) auto

text \<open>The first byte of the mark, \<open>0xE2\<close>, is no continuation byte and no ASCII byte.\<close>

lemma of_char_E2: "(of_char (CHR 0xE2) :: nat) = 226"
  by simp

lemma continuation_not_E2: "continuation c \<Longrightarrow> c \<noteq> CHR 0xE2"
  by (auto simp: continuation_def)

lemma ReplaceAll_empty_no_prefix:
  "old \<noteq> [] \<Longrightarrow> \<not> prefix old (c # cs) \<Longrightarrow>
   ReplaceAll_empty (c # cs) old = c # ReplaceAll_empty cs old"
  by simp

lemma LRM_not_empty: "LRM \<noteq> []"
  by (simp add: LRM_def)

lemma ReplaceAll_empty_LRM_other:
  "c \<noteq> CHR 0xE2 \<Longrightarrow> ReplaceAll_empty (c # cs) LRM = c # ReplaceAll_empty cs LRM"
  by (simp add: LRM_def)

lemma sublist_LRM_other:
  "c \<noteq> CHR 0xE2 \<Longrightarrow> sublist LRM (c # cs) = sublist LRM cs"
  by (simp add: LRM_def sublist_Cons_right)

lemma ReplaceAll_empty_LRM_skip:
  "\<forall>c \<in> set pre. c \<noteq> CHR 0xE2 \<Longrightarrow>
   ReplaceAll_empty (pre @ rest) LRM = pre @ ReplaceAll_empty rest LRM"
  by (induction pre) (simp_all add: ReplaceAll_empty_LRM_other del: ReplaceAll_empty.simps)

lemma sublist_LRM_skip:
  "\<forall>c \<in> set pre. c \<noteq> CHR 0xE2 \<Longrightarrow> sublist LRM (pre @ rest) = sublist LRM rest"
  by (induction pre) (simp_all add: sublist_LRM_other)

lemma clean_skip:
  assumes "\<forall>c \<in> set pre. c \<noteq> CHR 0xE2"
    and "\<not> sublist LRM (ReplaceAll_empty rest LRM)"
  shows "\<not> sublist LRM (ReplaceAll_empty (pre @ rest) LRM)"
  using assms by (simp add: ReplaceAll_empty_LRM_skip sublist_LRM_skip del: ReplaceAll_empty.simps)

lemma ReplaceAll_empty_LRM_hit:
  "ReplaceAll_empty (CHR 0xE2 # CHR 0x80 # CHR 0x8E # cs) LRM = ReplaceAll_empty cs LRM"
  by (simp add: LRM_def)

lemma clean_E2_miss:
  assumes "\<not> (c1 = CHR 0x80 \<and> c2 = CHR 0x8E)"
    and "c1 \<noteq> CHR 0xE2" and "c2 \<noteq> CHR 0xE2"
    and "\<not> sublist LRM (ReplaceAll_empty rest LRM)"
  shows "\<not> sublist LRM (ReplaceAll_empty (CHR 0xE2 # c1 # c2 # rest) LRM)"
proof -
  have miss: "\<not> prefix LRM (CHR 0xE2 # c1 # c2 # xs)" for xs
    using assms(1) by (auto simp: LRM_def)
  have "ReplaceAll_empty (CHR 0xE2 # c1 # c2 # rest) LRM =
        CHR 0xE2 # ReplaceAll_empty ([c1, c2] @ rest) LRM"
    using miss[of rest]
    by (simp add: ReplaceAll_empty_no_prefix LRM_not_empty del: ReplaceAll_empty.simps)
  also have "\<dots> = CHR 0xE2 # c1 # c2 # ReplaceAll_empty rest LRM"
    using assms(2,3) by (simp add: ReplaceAll_empty_LRM_other del: ReplaceAll_empty.simps)
  finally have eq: "ReplaceAll_empty (CHR 0xE2 # c1 # c2 # rest) LRM =
      CHR 0xE2 # c1 # c2 # ReplaceAll_empty rest LRM" .
  have "sublist LRM (CHR 0xE2 # c1 # c2 # ReplaceAll_empty rest LRM) =
        sublist LRM ([c1, c2] @ ReplaceAll_empty rest LRM)"
    using miss[of "ReplaceAll_empty rest LRM"] by (simp add: sublist_Cons_right)
  also have "\<dots> = sublist LRM (ReplaceAll_empty rest LRM)"
    using assms(2,3) by (simp add: sublist_LRM_other)
  finally show ?thesis
    using assms(4) eq by simp
qed

text \<open>
  In well-formed UTF-8 the three bytes of the mark can only stand where a character
  starts, so after \<open>ReplaceAll_empty\<close> has dropped every mark no byte sequence of the mark
  is left.
\<close>

lemma ReplaceAll_empty_LRM_clean:
  "utf8_valid s \<Longrightarrow> \<not> sublist LRM (ReplaceAll_empty s LRM)"
proof (induction "length s" arbitrary: s rule: less_induct)
  case less
  show ?case
  proof (cases s)
    case Nil
    then show ?thesis by (simp add: LRM_def)
  next
    case (Cons c cs)
    let ?b = "of_char c :: nat"
    consider (one) "?b < 0x80"
      | (two) "\<not> ?b < 0x80" "0xC2 \<le> ?b \<and> ?b \<le> 0xDF"
      | (three) "\<not> ?b < 0x80" "\<not> (0xC2 \<le> ?b \<and> ?b \<le> 0xDF)" "0xE0 \<le> ?b \<and> ?b \<le> 0xEF"
      | (four) "\<not> ?b < 0x80" "\<not> (0xC2 \<le> ?b \<and> ?b \<le> 0xDF)" "\<not> (0xE0 \<le> ?b \<and> ?b \<le> 0xEF)"
          "0xF0 \<le> ?b \<and> ?b \<le> 0xF4"
      | (bad) "\<not> ?b < 0x80" "\<not> (0xC2 \<le> ?b \<and> ?b \<le> 0xDF)" "\<not> (0xE0 \<le> ?b \<and> ?b \<le> 0xEF)"
          "\<not> (0xF0 \<le> ?b \<and> ?b \<le> 0xF4)"
      by blast
    then show ?thesis
    proof cases
      case one
      then have c: "c \<noteq> CHR 0xE2" by auto
      from one less.prems Cons have "utf8_valid cs" by simp
      with less.hyps[of cs] Cons have "\<not> sublist LRM (ReplaceAll_empty cs LRM)" by simp
      with clean_skip[of "[c]" cs] c Cons show ?thesis by simp
    next
      case two
      then have c: "c \<noteq> CHR 0xE2" by auto
      from two less.prems Cons obtain c1 rest where
        cs: "cs = c1 # rest" and v: "continuation c1" "utf8_valid rest"
        by (auto split: list.splits)
      from less.hyps[of rest] v Cons cs have "\<not> sublist LRM (ReplaceAll_empty rest LRM)" by simp
      with clean_skip[of "[c, c1]" rest] c continuation_not_E2[OF v(1)] Cons cs
      show ?thesis by simp
    next
      case three
      from three less.prems Cons obtain c1 c2 rest where
        cs: "cs = c1 # c2 # rest" and v: "second_of3 ?b c1" "continuation c2" "utf8_valid rest"
        by (auto split: list.splits)
      from less.hyps[of rest] v Cons cs have IH: "\<not> sublist LRM (ReplaceAll_empty rest LRM)" by simp
      have c2: "c2 \<noteq> CHR 0xE2"
        using v(2) by (rule continuation_not_E2)
      have c1: "c1 \<noteq> CHR 0xE2"
        using v(1) by (auto simp: second_of3_def continuation_def split: if_splits)
      show ?thesis
      proof (cases "c = CHR 0xE2")
        case False
        with clean_skip[of "[c, c1, c2]" rest] c1 c2 IH Cons cs show ?thesis by simp
      next
        case True
        show ?thesis
        proof (cases "c1 = CHR 0x80 \<and> c2 = CHR 0x8E")
          case hit: True
          with True Cons cs IH show ?thesis
            by (simp add: ReplaceAll_empty_LRM_hit del: ReplaceAll_empty.simps)
        next
          case miss: False
          from clean_E2_miss[OF miss c1 c2 IH] True Cons cs show ?thesis by simp
        qed
      qed
    next
      case four
      then have c: "c \<noteq> CHR 0xE2" by auto
      from four less.prems Cons obtain c1 c2 c3 rest where
        cs: "cs = c1 # c2 # c3 # rest"
        and v: "second_of4 ?b c1" "continuation c2" "continuation c3" "utf8_valid rest"
        by (auto split: list.splits)
      from less.hyps[of rest] v Cons cs have IH: "\<not> sublist LRM (ReplaceAll_empty rest LRM)" by simp
      have c1: "c1 \<noteq> CHR 0xE2"
        using v(1) by (auto simp: second_of4_def continuation_def split: if_splits)
      with clean_skip[of "[c, c1, c2, c3]" rest] c continuation_not_E2[OF v(2)]
        continuation_not_E2[OF v(3)] IH Cons cs
      show ?thesis by simp
    next
      case bad
      with less.prems Cons show ?thesis by simp
    qed
  qed
qed

text \<open>
  On bytes that are not well-formed UTF-8 the single pass can leave a mark behind: the
  bytes around a removed mark may join to a new one. Strings decoded from JSON never have
  this shape.
\<close>

lemma ReplaceAll_empty_raw_bytes:
  "ReplaceAll_empty [CHR 0xE2, CHR 0x80, CHR 0xE2, CHR 0x80, CHR 0x8E, CHR 0x8E] LRM = LRM \<and>
   \<not> utf8_valid [CHR 0xE2, CHR 0x80, CHR 0xE2, CHR 0x80, CHR 0x8E, CHR 0x8E]"
  by (simp add: LRM_def second_of3_def continuation_def)

text \<open>
  Claim C8. No title among the records that \<^verbatim>\<open>FetchAds\<close> returns contains the
  character "&". No description among them contains the bytes of U+200E, the fetched
  descriptions being well-formed UTF-8 (as every string decoded from JSON is).
\<close>

theorem C8_title_and_description_clean:
  "FetchAds unmarshal (Inr ads) = Inr (items (process_ads unmarshal init_state ads)) \<and>
   (\<forall>r \<in> set (items (process_ads unmarshal init_state ads)). CHR ''&'' \<notin> set (Title r)) \<and>
   ((\<forall>ad \<in> set ads. utf8_valid (ad_Description ad)) \<longrightarrow>
    (\<forall>r \<in> set (items (process_ads unmarshal init_state ads)). \<not> sublist LRM (Description r)))"
proof (intro conjI impI ballI)
  show "FetchAds unmarshal (Inr ads) = Inr (items (process_ads unmarshal init_state ads))"
    by (rule FetchAds_items)
next
  fix r
  assume "r \<in> set (items (process_ads unmarshal init_state ads))"
  then show "CHR ''&'' \<notin> set (Title r)"
    by (rule process_ads_items_invariant[rotated 2])
       (simp_all add: init_state_def build_item_def ReplaceAll_empty_single)
next
  fix r
  assume valid: "\<forall>ad \<in> set ads. utf8_valid (ad_Description ad)"
    and r: "r \<in> set (items (process_ads unmarshal init_state ads))"
  from r show "\<not> sublist LRM (Description r)"
  proof (rule process_ads_items_invariant[rotated 2])
    fix x
    assume "x \<in> set (items init_state)"
    then show "\<not> sublist LRM (Description x)"
      by (simp add: init_state_def)
  next
    fix ad title brand imageSrc price
    assume "ad \<in> set ads"
    with valid have "utf8_valid (ad_Description ad)"
      by simp
    then have "\<not> sublist LRM (ReplaceAll_empty (ad_Description ad) LRM)"
      by (rule ReplaceAll_empty_LRM_clean)
    then show "\<not> sublist LRM (Description (build_item ad title brand imageSrc price))"
      by (simp add: build_item_def)
  qed
qed

theorem C8_title_and_description_clean_witness:
  "utf8_valid (ad_Description (sample_ad ''A1'' ''123'' ''qualifying'')) \<and>
   sublist LRM (ad_Description (sample_ad ''A1'' ''123'' ''qualifying'')) \<and>
   items (process_ads sample_unmarshal init_state [sample_ad ''A1'' ''123'' ''qualifying'']) =
     [\<lparr>ID = ''A1'', Title = ''Bag  Co'', Description = ''Fine leather'',
       Link = ''https://ayshei.com/product/A1'',
       ImageLink = ''https://ayshei.com/_next/image?url=https://storage.ayshei.com/prod/public/drafts/D1/web/abc/def.jpg&amp;w=3840&amp;q=75'',
       Brand = ''Acme'', Price = ''100 AED'', Availability = ''in stock'',
       CodeNumber = ''123''\<rparr>] \<and>
   CHR ''&'' \<notin> set ''Bag  Co'' \<and>
   \<not> sublist LRM ''Fine leather''"
proof -
  let ?ad = "sample_ad ''A1'' ''123'' ''qualifying''"
  let ?rec = "\<lparr>ID = ''A1'', Title = ''Bag  Co'', Description = ''Fine leather'',
       Link = ''https://ayshei.com/product/A1'',
       ImageLink = ''https://ayshei.com/_next/image?url=https://storage.ayshei.com/prod/public/drafts/D1/web/abc/def.jpg&amp;w=3840&amp;q=75'',
       Brand = ''Acme'', Price = ''100 AED'', Availability = ''in stock'',
       CodeNumber = ''123''\<rparr>"
  have v: "utf8_valid (ad_Description ?ad)"
    by (simp add: sample_ad_def LRM_def second_of3_def continuation_def)
  have s: "sublist LRM (ad_Description ?ad)"
    by (simp add: sample_ad_def LRM_def sublist_Cons_right)
  have out: "items (process_ads sample_unmarshal init_state [?ad]) = [?rec]"
    by (simp add: process_ads_Cons process_ads_Nil sample_qualifying init_state_def)
  note r = C8_title_and_description_clean[of sample_unmarshal "[?ad]"]
  have mem: "?rec \<in> set (items (process_ads sample_unmarshal init_state [?ad]))"
    by (simp add: out)
  from r have "\<forall>r \<in> set (items (process_ads sample_unmarshal init_state [?ad])).
      CHR ''&'' \<notin> set (Title r)"
    by (elim conjE)
  from bspec[OF this mem] have t: "CHR ''&'' \<notin> set ''Bag  Co''"
    by simp
  have all: "\<forall>ad \<in> set [?ad]. utf8_valid (ad_Description ad)"
    using v by simp
  from r all have "\<forall>r \<in> set (items (process_ads sample_unmarshal init_state [?ad])).
      \<not> sublist LRM (Description r)"
    by (elim conjE) (rule mp)
  from bspec[OF this mem] have d: "\<not> sublist LRM ''Fine leather''"
    by simp
  show ?thesis
    by (intro conjI) (rule v, rule s, rule out, rule t, rule d)
qed

end
